theory Spec2Isabelle
  imports Complex_Main "HOL-Library.Word" "HOL-Library.AList" "HOL-Library.Sublist"
begin

unbundle bit_operations_syntax

section \<open>Data model of \<open>ggwave-service.ts\<close>\<close>

text \<open>
  Strings of the source are modelled as \<open>string\<close> (lists of 8-bit characters, i.e. the
  UTF-8 bytes of the text), a \<open>Uint8Array\<close> as a list of 8-bit words, and a JavaScript
  number that holds an integer as \<open>int\<close> (the protocol's counters stay far below
  \<open>2^53\<close>, where doubles are exact).
\<close>

type_synonym byte = "8 word"
type_synonym bytes = "byte list"

record FECScheme =
  groupSize :: int
  parityCount :: int
  name :: string
  overlap :: bool

definition CHUNK_SIZE :: nat where
  "CHUNK_SIZE = 75"

definition SESSION_TIMEOUT_BASE_MS :: int where
  "SESSION_TIMEOUT_BASE_MS = 30000"

definition SESSION_TIMEOUT_PER_PACKET_MS :: int where
  "SESSION_TIMEOUT_PER_PACKET_MS = 5000"

definition MIN_SESSION_TIMEOUT_MS :: int where
  "MIN_SESSION_TIMEOUT_MS = 60000"

definition FEC_NONE :: FECScheme where
  "FEC_NONE = \<lparr>groupSize = 0, parityCount = 0,
     name = ''No protection (0% overhead)'', overlap = False\<rparr>"

definition FEC_BASIC_4 :: FECScheme where
  "FEC_BASIC_4 = \<lparr>groupSize = 4, parityCount = 1,
     name = ''Simple protection 4:1 (25% overhead)'', overlap = False\<rparr>"

definition FEC_BASIC_2 :: FECScheme where
  "FEC_BASIC_2 = \<lparr>groupSize = 2, parityCount = 1,
     name = ''Simple protection 2:1 (50% overhead)'', overlap = False\<rparr>"

definition FEC_OVERLAPPING_3 :: FECScheme where
  "FEC_OVERLAPPING_3 = \<lparr>groupSize = 3, parityCount = 1,
     name = ''Enhanced overlapping protection (67% overhead)'', overlap = True\<rparr>"

definition FEC_STRONG_OVERLAPPING_3 :: FECScheme where
  "FEC_STRONG_OVERLAPPING_3 = \<lparr>groupSize = 3, parityCount = 3,
     name = ''Strong overlapping protection (100% overhead, corrects up to 3 errors)'',
     overlap = True\<rparr>"

text \<open>The table \<open>FEC_SCHEMES\<close>, in the order of the object literal.\<close>

definition FEC_SCHEMES :: "(string \<times> FECScheme) list" where
  "FEC_SCHEMES =
     [(''NONE'', FEC_NONE), (''BASIC_4'', FEC_BASIC_4), (''BASIC_2'', FEC_BASIC_2),
      (''OVERLAPPING_3'', FEC_OVERLAPPING_3),
      (''STRONG_OVERLAPPING_3'', FEC_STRONG_OVERLAPPING_3)]"

definition DEFAULT_FEC_SCHEME :: FECScheme where
  "DEFAULT_FEC_SCHEME = FEC_STRONG_OVERLAPPING_3"

subsection \<open>String primitives of the platform\<close>

text \<open>\<open>s.startsWith(p)\<close> and \<open>s.includes(p)\<close> (a keyword of Isabelle, hence \<open>str_includes\<close>).\<close>

definition startsWith :: "string \<Rightarrow> string \<Rightarrow> bool" where
  "startsWith s p = (take (length p) s = p)"

fun str_includes :: "string \<Rightarrow> string \<Rightarrow> bool" where
  "str_includes [] p = (p = [])"
| "str_includes (c # cs) p = (startsWith (c # cs) p \<or> str_includes cs p)"

text \<open>\<open>s.split(c)\<close> for a one-character separator: never empty, \<open>''''\<close> gives \<open>['''']\<close>.\<close>

fun split :: "char \<Rightarrow> string \<Rightarrow> string list" where
  "split c [] = [[]]"
| "split c (x # xs) =
     (if x = c then [] # split c xs
      else (case split c xs of p # ps \<Rightarrow> (x # p) # ps | [] \<Rightarrow> [[x]]))"

text \<open>\<open>parts.join(c)\<close>.\<close>

fun join :: "char \<Rightarrow> string list \<Rightarrow> string" where
  "join c [] = []"
| "join c [p] = p"
| "join c (p # q # ps) = p @ c # join c (q # ps)"

text \<open>\<open>parts[i] || d\<close>: a missing or empty element gives the default.\<close>

definition partOr :: "string list \<Rightarrow> nat \<Rightarrow> string \<Rightarrow> string" where
  "partOr parts i d = (if i < length parts \<and> parts ! i \<noteq> [] then parts ! i else d)"

text \<open>Decimal rendering of an integer-valued number, as a template literal does.\<close>

definition digitChar :: "nat \<Rightarrow> char" where
  "digitChar d = char_of (48 + d)"

fun showNat :: "nat \<Rightarrow> string" where
  "showNat n = (if n < 10 then [digitChar n] else showNat (n div 10) @ [digitChar (n mod 10)])"

declare showNat.simps [simp del]

definition numToString :: "int \<Rightarrow> string" where
  "numToString n = (if n < 0 then CHR ''-'' # showNat (nat (- n)) else showNat (nat n))"

subsection \<open>The FEC group plan\<close>

record fecGroup =
  g_start :: int
  g_end :: int
  g_type :: string

text \<open>
  \<open>generateOverlappingGroups\<close>: the first loop \<open>for (i = 1; i <= totalPackets; i += 3)\<close>
  pushes the main groups and records their keys \<open>`${start}-${end}`\<close>; the second loop
  \<open>for (i = 2; i <= totalPackets; i++)\<close> pushes the overlapping groups and increments
  \<open>oIndex\<close> whenever \<open>i + 2 <= totalPackets\<close>.
\<close>

definition rangeKey :: "int \<Rightarrow> int \<Rightarrow> string" where
  "rangeKey s e = numToString s @ CHR ''-'' # numToString e"

function mainGroupsLoop ::
  "int \<Rightarrow> int \<Rightarrow> fecGroup list \<Rightarrow> string set \<Rightarrow> fecGroup list \<times> string set" where
  "mainGroupsLoop i totalPackets mainGroups mainGroupKeys =
     (if i \<le> totalPackets then
        (let start = i; end' = min (i + 2) totalPackets; key = rangeKey start end'
         in mainGroupsLoop (i + 3) totalPackets
              (mainGroups @ [\<lparr>g_start = start, g_end = end', g_type = ''0''\<rparr>])
              (insert key mainGroupKeys))
      else (mainGroups, mainGroupKeys))"
  by pat_completeness auto
termination
  by (relation "measure (\<lambda>(i, t, _, _). nat (t + 1 - i))") auto

function overlappingGroupsLoop ::
  "int \<Rightarrow> int \<Rightarrow> string set \<Rightarrow> int \<Rightarrow> fecGroup list \<Rightarrow> fecGroup list" where
  "overlappingGroupsLoop i totalPackets mainGroupKeys oIndex overlappingGroups =
     (if i \<le> totalPackets then
        (if i + 2 \<le> totalPackets then
           (let start = i; end' = i + 2; key = rangeKey start end'
            in overlappingGroupsLoop (i + 1) totalPackets mainGroupKeys (oIndex + 1)
                 (if key \<notin> mainGroupKeys
                  then overlappingGroups @
                         [\<lparr>g_start = start, g_end = end', g_type = CHR ''O'' # numToString oIndex\<rparr>]
                  else overlappingGroups))
         else overlappingGroupsLoop (i + 1) totalPackets mainGroupKeys oIndex overlappingGroups)
      else overlappingGroups)"
  by pat_completeness auto
termination
  by (relation "measure (\<lambda>(i, t, _, _, _). nat (t + 1 - i))") auto

declare mainGroupsLoop.simps [simp del] overlappingGroupsLoop.simps [simp del]

definition generateOverlappingGroups :: "int \<Rightarrow> fecGroup list" where
  "generateOverlappingGroups totalPackets =
     (let (mainGroups, mainGroupKeys) = mainGroupsLoop 1 totalPackets [] {}
      in mainGroups @ overlappingGroupsLoop 2 totalPackets mainGroupKeys 0 [])"

text \<open>
  \<open>generateFECGroups\<close>: the standard branch runs \<open>for (i = 0; i < totalPackets; i +=
  groupSize)\<close> and, inside, \<open>for (p = 0; p < parityCount; p++)\<close>. A negative
  \<open>groupSize\<close> would not advance the loop; the table has none, and the model stops there.
\<close>

function parityTypesLoop :: "int \<Rightarrow> int \<Rightarrow> int \<Rightarrow> int \<Rightarrow> fecGroup list" where
  "parityTypesLoop p pc start end' =
     (if p < pc then \<lparr>g_start = start, g_end = end', g_type = numToString p\<rparr>
                      # parityTypesLoop (p + 1) pc start end'
      else [])"
  by pat_completeness auto
termination
  by (relation "measure (\<lambda>(p, pc, _, _). nat (pc - p))") auto

function standardGroupsLoop :: "int \<Rightarrow> int \<Rightarrow> FECScheme \<Rightarrow> fecGroup list" where
  "standardGroupsLoop i totalPackets fecScheme =
     (if i < totalPackets \<and> 0 < groupSize fecScheme then
        parityTypesLoop 0 (parityCount fecScheme) (i + 1)
            (min (i + groupSize fecScheme) totalPackets)
          @ standardGroupsLoop (i + groupSize fecScheme) totalPackets fecScheme
      else [])"
  by pat_completeness auto
termination
  by (relation "measure (\<lambda>(i, t, _). nat (t - i))") auto

declare parityTypesLoop.simps [simp del] standardGroupsLoop.simps [simp del]

definition generateFECGroups :: "int \<Rightarrow> FECScheme \<Rightarrow> fecGroup list" where
  "generateFECGroups totalPackets fecScheme =
     (if groupSize fecScheme = 0 then []
      else if overlap fecScheme then generateOverlappingGroups totalPackets
      else standardGroupsLoop 0 totalPackets fecScheme)"

subsection \<open>Adaptive timeout\<close>

text \<open>
  \<open>calculateTimeout(totalPackets, protocolName?)\<close>; \<open>None\<close> is an absent argument, and
  the empty string is falsy like it.
\<close>

definition speedMultiplier :: "string option \<Rightarrow> int" where
  "speedMultiplier protocolName =
     (case protocolName of
        None \<Rightarrow> 1
      | Some p \<Rightarrow>
          if p = [] then 1
          else if str_includes p ''NORMAL'' then 3
          else if str_includes p ''FAST'' \<and> \<not> str_includes p ''FASTEST'' then 2
          else if str_includes p ''FASTEST'' then 1
          else 1)"

definition calculateTimeout :: "int \<Rightarrow> string option \<Rightarrow> int" where
  "calculateTimeout totalPackets protocolName =
     (let multiplier = speedMultiplier protocolName;
          calculatedTimeout = SESSION_TIMEOUT_BASE_MS
            + totalPackets * SESSION_TIMEOUT_PER_PACKET_MS * multiplier
      in max calculatedTimeout MIN_SESSION_TIMEOUT_MS)"

subsection \<open>Base-64, integers in text, bytes and text\<close>

text \<open>
  The platform's \<open>btoa\<close> and \<open>atob\<close> on the traditional alphabet. \<open>atob\<close> is the
  forgiving decode: when the length is a multiple of 4, one or two trailing \<open>=\<close> are
  removed; what is left must not be of length 1 modulo 4 and must be in the alphabet,
  otherwise the call throws (\<open>None\<close>). The model is used only on text that has passed the
  regular expression below, which admits no white space.
\<close>

definition isB64Char :: "char \<Rightarrow> bool" where
  "isB64Char c =
     (let n = (of_char c :: nat)
      in (65 \<le> n \<and> n \<le> 90) \<or> (97 \<le> n \<and> n \<le> 122) \<or> (48 \<le> n \<and> n \<le> 57) \<or> n = 43 \<or> n = 47)"

definition b64val :: "char \<Rightarrow> nat" where
  "b64val c =
     (let n = (of_char c :: nat)
      in if 65 \<le> n \<and> n \<le> 90 then n - 65
         else if 97 \<le> n \<and> n \<le> 122 then n - 71
         else if 48 \<le> n \<and> n \<le> 57 then n + 4
         else if n = 43 then 62 else 63)"

definition b64char :: "nat \<Rightarrow> char" where
  "b64char v =
     (if v < 26 then char_of (v + 65)
      else if v < 52 then char_of (v + 71)
      else if v < 62 then char_of (v - 4)
      else if v = 62 then CHR ''+'' else CHR ''/'')"

fun btoa :: "bytes \<Rightarrow> string" where
  "btoa [] = []"
| "btoa [a] = [b64char (unat a div 4), b64char ((unat a mod 4) * 16), CHR ''='', CHR ''='']"
| "btoa [a, b] =
     [b64char (unat a div 4), b64char ((unat a mod 4) * 16 + unat b div 16),
      b64char ((unat b mod 16) * 4), CHR ''='']"
| "btoa (a # b # c # r) =
     [b64char (unat a div 4), b64char ((unat a mod 4) * 16 + unat b div 16),
      b64char ((unat b mod 16) * 4 + unat c div 64), b64char (unat c mod 64)] @ btoa r"

fun decodeSextets :: "nat list \<Rightarrow> bytes" where
  "decodeSextets (a # b # c # d # r) =
     [of_nat (a * 4 + b div 16), of_nat ((b mod 16) * 16 + c div 4), of_nat ((c mod 4) * 64 + d)]
       @ decodeSextets r"
| "decodeSextets [a, b, c] = [of_nat (a * 4 + b div 16), of_nat ((b mod 16) * 16 + c div 4)]"
| "decodeSextets [a, b] = [of_nat (a * 4 + b div 16)]"
| "decodeSextets _ = []"

definition stripPadding :: "string \<Rightarrow> string" where
  "stripPadding s =
     (if s \<noteq> [] \<and> last s = CHR ''='' then
        (if butlast s \<noteq> [] \<and> last (butlast s) = CHR ''='' then butlast (butlast s)
         else butlast s)
      else s)"

definition atob :: "string \<Rightarrow> bytes option" where
  "atob s =
     (let d = (if length s mod 4 = 0 then stripPadding s else s)
      in if length d mod 4 = 1 \<or> \<not> list_all isB64Char d then None
         else Some (decodeSextets (map b64val d)))"

text \<open>The test of \<open>/^[A-Za-z0-9+/]*={0,2}$/\<close>.\<close>

definition base64Regex :: "string \<Rightarrow> bool" where
  "base64Regex s =
     (let rest = dropWhile isB64Char s in rest = [] \<or> rest = ''='' \<or> rest = ''=='')"

text \<open>\<open>validateAndDecodeBase64\<close>: \<open>None\<close> is the source's \<open>null\<close>.\<close>

definition validateAndDecodeBase64 :: "string \<Rightarrow> bytes option" where
  "validateAndDecodeBase64 base64String =
     (if \<not> base64Regex base64String then None
      else if length base64String mod 4 \<noteq> 0 then None
      else atob base64String)"

text \<open>
  \<open>parseInt(s, 10)\<close> and \<open>parseInt(s)\<close>: leading white space, an optional sign, then the
  longest prefix of digits; \<open>None\<close> is \<open>NaN\<close>. Without a radix a \<open>0x\<close> prefix selects
  base 16.
\<close>

definition isWhiteSpace :: "char \<Rightarrow> bool" where
  "isWhiteSpace c = ((of_char c :: nat) \<in> {9, 10, 11, 12, 13, 32})"

definition isDigit :: "char \<Rightarrow> bool" where
  "isDigit c = (48 \<le> (of_char c :: nat) \<and> (of_char c :: nat) \<le> 57)"

definition hexVal :: "char \<Rightarrow> nat option" where
  "hexVal c =
     (let n = (of_char c :: nat)
      in if 48 \<le> n \<and> n \<le> 57 then Some (n - 48)
         else if 65 \<le> n \<and> n \<le> 70 then Some (n - 55)
         else if 97 \<le> n \<and> n \<le> 102 then Some (n - 87)
         else None)"

definition digitsValue :: "nat \<Rightarrow> string \<Rightarrow> nat" where
  "digitsValue radix ds = foldl (\<lambda>acc c. acc * radix + the (hexVal c)) 0 ds"

definition splitSign :: "string \<Rightarrow> bool \<times> string" where
  "splitSign s =
     (let t = dropWhile isWhiteSpace s
      in case t of
           [] \<Rightarrow> (False, [])
         | c # r \<Rightarrow> if c = CHR ''-'' then (True, r) else if c = CHR ''+'' then (False, r)
                    else (False, t))"

definition signedValue :: "bool \<Rightarrow> nat \<Rightarrow> string \<Rightarrow> int option" where
  "signedValue neg radix ds =
     (if ds = [] then None
      else Some ((if neg then - 1 else 1) * int (digitsValue radix ds)))"

definition parseInt10 :: "string \<Rightarrow> int option" where
  "parseInt10 s = (let (neg, u) = splitSign s in signedValue neg 10 (takeWhile isDigit u))"

definition parseInt :: "string \<Rightarrow> int option" where
  "parseInt s =
     (let (neg, u) = splitSign s
      in if 2 \<le> length u \<and> hd u = CHR ''0'' \<and> (u ! 1 = CHR ''x'' \<or> u ! 1 = CHR ''X'')
         then signedValue neg 16 (takeWhile (\<lambda>c. hexVal c \<noteq> None) (drop 2 u))
         else signedValue neg 10 (takeWhile isDigit u))"

text \<open>\<open>TextEncoder\<close> and \<open>TextDecoder\<close> on text held as its UTF-8 bytes.\<close>

definition textEncode :: "string \<Rightarrow> bytes" where
  "textEncode s = map (\<lambda>c. of_nat (of_char c)) s"

definition textDecode :: "bytes \<Rightarrow> string" where
  "textDecode bs = map (\<lambda>b. char_of (unat b)) bs"

subsection \<open>The SEQUENCIA field\<close>

record SequenciaInfo =
  inicio :: "int option"
  fim :: "int option"
  tipo :: string
  isValid :: bool

definition parseSequencia :: "string \<Rightarrow> SequenciaInfo" where
  "parseSequencia seq =
     (let parts = split CHR ''-'' seq
      in if length parts < 2 then
           \<lparr>inicio = Some 0, fim = Some 0, tipo = ''0'', isValid = False\<rparr>
         else
           (let inicio = parseInt (parts ! 0);
                fim = parseInt (parts ! 1);
                tipo = partOr parts 2 ''0'';
                isValid = (case (inicio, fim) of
                             (Some i, Some f) \<Rightarrow> i \<le> f \<and> 0 < i
                           | _ \<Rightarrow> False)
            in \<lparr>inicio = inicio, fim = fim, tipo = tipo, isValid = isValid\<rparr>))"

definition createParityKey :: "int \<Rightarrow> int \<Rightarrow> string \<Rightarrow> string" where
  "createParityKey inicio' fim' tipo' =
     numToString inicio' @ CHR ''-'' # numToString fim' @ CHR ''-'' # tipo'"

definition normalizeSequencia :: "string \<Rightarrow> string" where
  "normalizeSequencia seq =
     (let parsed = parseSequencia seq
      in if \<not> isValid parsed then seq
         else createParityKey (the (inicio parsed)) (the (fim parsed)) (tipo parsed))"

subsection \<open>Parity generation\<close>

text \<open>
  \<open>new Uint8Array(size).set(chunk)\<close> throws a \<open>RangeError\<close> when the chunk is longer
  than the array; otherwise the chunk is padded with zero bytes on the right.
\<close>

datatype jsError = RangeError

definition padChunk :: "nat \<Rightarrow> bytes \<Rightarrow> jsError + bytes" where
  "padChunk size' chunk =
     (if size' < length chunk then Inl RangeError
      else Inr (chunk @ replicate (size' - length chunk) 0))"

text \<open>
  \<open>for (j = 0; j < CHUNK_SIZE; j++) r[j] ^= p[j]\<close> on a typed array \<open>r\<close> of any length:
  writes past the end of \<open>r\<close> are ignored, elements past \<open>p\<close> are left alone.
\<close>

definition xorInto :: "bytes \<Rightarrow> bytes \<Rightarrow> bytes" where
  "xorInto r p = map2 (XOR) r p @ drop (length p) r"

definition weighted :: "int \<Rightarrow> bytes \<Rightarrow> bytes" where
  "weighted weight p = map (\<lambda>v. word_of_int (uint v * weight)) p"

fun xorBytesLoop :: "bytes list \<Rightarrow> nat \<Rightarrow> bytes \<Rightarrow> jsError + bytes" where
  "xorBytesLoop [] size' result = Inr result"
| "xorBytesLoop (chunk # chunks) size' result =
     (case padChunk size' chunk of
        Inl e \<Rightarrow> Inl e
      | Inr paddedChunk \<Rightarrow> xorBytesLoop chunks size' (xorInto result paddedChunk))"

definition xorBytes :: "bytes list \<Rightarrow> nat \<Rightarrow> jsError + bytes" where
  "xorBytes chunks size' = xorBytesLoop chunks size' (replicate size' 0)"

text \<open>
  The weighted parities of \<open>generateParityData\<close>: chunk \<open>i\<close> (0-based) enters with weight
  \<open>w (i + 1)\<close>, where \<open>w\<close> is the identity for the secondary and the square for the
  tertiary parity.
\<close>

fun weightedLoop :: "(int \<Rightarrow> int) \<Rightarrow> int \<Rightarrow> bytes list \<Rightarrow> bytes \<Rightarrow> jsError + bytes" where
  "weightedLoop w i [] acc = Inr acc"
| "weightedLoop w i (chunk # chunks) acc =
     (case padChunk CHUNK_SIZE chunk of
        Inl e \<Rightarrow> Inl e
      | Inr paddedChunk \<Rightarrow>
          weightedLoop w (i + 1) chunks (xorInto acc (weighted (w (i + 1)) paddedChunk)))"

definition generateParityData :: "bytes list \<Rightarrow> FECScheme \<Rightarrow> jsError + bytes list" where
  "generateParityData chunks scheme =
     (if parityCount scheme = 0 then Inr []
      else
        (case xorBytes chunks CHUNK_SIZE of
           Inl e \<Rightarrow> Inl e
         | Inr primaryParity \<Rightarrow>
             if \<not> 2 \<le> parityCount scheme then Inr [primaryParity]
             else
               (case weightedLoop (\<lambda>k. k) 0 chunks (replicate CHUNK_SIZE 0) of
                  Inl e \<Rightarrow> Inl e
                | Inr secondaryParity \<Rightarrow>
                    if \<not> 3 \<le> parityCount scheme then Inr [primaryParity, secondaryParity]
                    else
                      (case weightedLoop (\<lambda>k. k * k) 0 chunks (replicate CHUNK_SIZE 0) of
                         Inl e \<Rightarrow> Inl e
                       | Inr tertiaryParity \<Rightarrow>
                           Inr [primaryParity, secondaryParity, tertiaryParity]))))"

subsection \<open>Recovery\<close>

text \<open>
  The loop \<open>while (actualLength > 0 && data[actualLength - 1] === 0) actualLength--\<close>,
  started at \<open>data.length\<close>.
\<close>

fun actualLengthLoop :: "bytes \<Rightarrow> nat \<Rightarrow> nat" where
  "actualLengthLoop d 0 = 0"
| "actualLengthLoop d (Suc n) = (if d ! n = 0 then actualLengthLoop d n else Suc n)"

definition trimTrailingZeros :: "bytes \<Rightarrow> bytes" where
  "trimTrailingZeros d = take (actualLengthLoop d (length d)) d"

text \<open>Reading \<open>a[j]\<close> from a typed array: \<open>None\<close> is \<open>undefined\<close>.\<close>

definition readAt :: "bytes \<Rightarrow> nat \<Rightarrow> byte option" where
  "readAt a j = (if j < length a then Some (a ! j) else None)"

text \<open>
  \<open>Math.round\<close> on the exact quotient. The quotients of the double solve have integer
  numerator and denominator, so the double nearest to the quotient rounds like the
  quotient itself; in the triple solve of a group of three (the only table scheme with
  three parities) every intermediate value is a multiple of one half and the double
  arithmetic is exact. A \<open>NaN\<close> (from an \<open>undefined\<close> operand) becomes 0 under \<open>& 0xFF\<close>.
\<close>

definition jsRound :: "rat \<Rightarrow> int" where
  "jsRound q = \<lfloor>q + 1 / 2\<rfloor>"

definition solveDouble :: "int \<Rightarrow> int \<Rightarrow> byte option \<Rightarrow> byte option \<Rightarrow> byte \<times> byte" where
  "solveDouble weight1 weight2 a b =
     (if weight1 \<noteq> weight2 then
        (let y = (case (a, b) of
                    (Some av, Some bv) \<Rightarrow>
                      word_of_int (jsRound (of_int (uint bv - weight1 * uint av)
                                             / of_int (weight2 - weight1)))
                  | _ \<Rightarrow> 0);
             x = (case a of Some av \<Rightarrow> av | None \<Rightarrow> 0) XOR y
         in (x, y))
      else
        (let h = (case a of Some av \<Rightarrow> word_of_int (uint av div 2) | None \<Rightarrow> 0)
         in (h, h)))"

definition solveTriple ::
  "int \<Rightarrow> int \<Rightarrow> int \<Rightarrow> byte option \<Rightarrow> byte option \<Rightarrow> byte option \<Rightarrow> byte \<times> byte \<times> byte" where
  "solveTriple w21 w22 w23 a b c =
     (case (a, b, c) of
        (Some av, Some bv, Some cv) \<Rightarrow>
          (let w11 = 1; w12 = 1; w13 = (1 :: rat);
               w31 = w21 * w21; w32 = w22 * w22; w33 = w23 * w23;
               a' = of_int (uint av); b' = of_int (uint bv); c' = of_int (uint cv);
               mult21 = of_int w21 / w11;
               mult31 = of_int w31 / w11;
               b2 = b' - mult21 * a';
               c2 = c' - mult31 * a';
               w22_new = of_int w22 - mult21 * w12;
               w23_new = of_int w23 - mult21 * w13;
               w32_new = of_int w32 - mult31 * w12;
               w33_new = of_int w33 - mult31 * w13;
               mult32 = w32_new / w22_new;
               c3 = c2 - mult32 * b2;
               w33_final = w33_new - mult32 * w23_new;
               z = (if w33_final \<noteq> 0 then c3 / w33_final else 0);
               y = (if w22_new \<noteq> 0 then (b2 - w23_new * z) / w22_new else 0);
               x = (if w11 \<noteq> 0 then (a' - w12 * y - w13 * z) / w11 else 0)
           in (word_of_int (jsRound x), word_of_int (jsRound y), word_of_int (jsRound z)))
      | _ \<Rightarrow> (0, 0, 0))"

text \<open>
  The loops over \<open>presentChunks\<close>: each chunk is padded (which may throw) and XORed into
  the running parities, with its weight \<open>index - groupStart + 1\<close> for the secondary parity
  and the square of that for the tertiary one.
\<close>

fun applyPresent :: "bytes list \<Rightarrow> bytes \<Rightarrow> jsError + bytes" where
  "applyPresent [] r = Inr r"
| "applyPresent (d # ds) r =
     (case padChunk CHUNK_SIZE d of
        Inl e \<Rightarrow> Inl e
      | Inr paddedData \<Rightarrow> applyPresent ds (xorInto r paddedData))"

fun applyPresentWeighted ::
  "(int \<Rightarrow> int) \<Rightarrow> int \<Rightarrow> (int \<times> bytes) list \<Rightarrow> bytes \<Rightarrow> jsError + bytes" where
  "applyPresentWeighted w groupStart [] r = Inr r"
| "applyPresentWeighted w groupStart ((index, d) # ps) r =
     (case padChunk CHUNK_SIZE d of
        Inl e \<Rightarrow> Inl e
      | Inr paddedData \<Rightarrow>
          applyPresentWeighted w groupStart ps
            (xorInto r (weighted (w (index - groupStart + 1)) paddedData)))"

definition recoverSingle ::
  "int \<Rightarrow> bytes \<Rightarrow> (int \<times> bytes) list \<Rightarrow> jsError + (int \<times> bytes) list" where
  "recoverSingle missingIndex primaryParity presentChunks =
     (case applyPresent (map snd presentChunks) primaryParity of
        Inl e \<Rightarrow> Inl e
      | Inr recoveredData \<Rightarrow>
          (let actualLength = actualLengthLoop recoveredData (length recoveredData)
           in if 0 < actualLength then Inr [(missingIndex, take actualLength recoveredData)]
              else Inr []))"

text \<open>
  The double and triple branches run inside \<open>try\<close>/\<open>catch\<close>: a \<open>RangeError\<close> of the
  padding leaves \<open>recovered\<close> empty.
\<close>

definition recoverDouble ::
  "int \<Rightarrow> int list \<Rightarrow> bytes \<Rightarrow> bytes \<Rightarrow> (int \<times> bytes) list \<Rightarrow> (int \<times> bytes) list" where
  "recoverDouble groupStart missingIndices primaryParity secondaryParity presentChunks =
     (let sorted' = sort missingIndices;
          missing1 = sorted' ! 0; missing2 = sorted' ! 1
      in case (applyPresent (map snd presentChunks) primaryParity,
               applyPresentWeighted (\<lambda>k. k) groupStart presentChunks secondaryParity) of
           (Inr adjustedPrimary, Inr adjustedSecondary) \<Rightarrow>
             (let weight1 = missing1 - groupStart + 1;
                  weight2 = missing2 - groupStart + 1;
                  solved = map (\<lambda>j. solveDouble weight1 weight2
                                      (readAt adjustedPrimary j) (readAt adjustedSecondary j))
                               [0..<CHUNK_SIZE];
                  recoveredData1 = map (\<lambda>(x, y). if missing1 < missing2 then x else y) solved;
                  recoveredData2 = map (\<lambda>(x, y). if missing1 < missing2 then y else x) solved;
                  len1 = actualLengthLoop recoveredData1 (length recoveredData1);
                  len2 = actualLengthLoop recoveredData2 (length recoveredData2)
              in if 0 < len1 \<and> 0 < len2
                 then AList.update missing2 (take len2 recoveredData2)
                        [(missing1, take len1 recoveredData1)]
                 else [])
         | _ \<Rightarrow> [])"

definition recoverTriple ::
  "int \<Rightarrow> int list \<Rightarrow> bytes \<Rightarrow> bytes \<Rightarrow> bytes \<Rightarrow> (int \<times> bytes) list
     \<Rightarrow> (int \<times> bytes) list" where
  "recoverTriple groupStart missingIndices primaryParity secondaryParity tertiaryParity
       presentChunks =
     (let sorted' = sort missingIndices;
          missing1 = sorted' ! 0; missing2 = sorted' ! 1; missing3 = sorted' ! 2
      in case (applyPresentWeighted (\<lambda>k. 1) groupStart presentChunks primaryParity,
               applyPresentWeighted (\<lambda>k. k) groupStart presentChunks secondaryParity,
               applyPresentWeighted (\<lambda>k. k * k) groupStart presentChunks tertiaryParity) of
           (Inr adjustedPrimary, Inr adjustedSecondary, Inr adjustedTertiary) \<Rightarrow>
             (let w21 = missing1 - groupStart + 1;
                  w22 = missing2 - groupStart + 1;
                  w23 = missing3 - groupStart + 1;
                  solved = map (\<lambda>j. solveTriple w21 w22 w23 (readAt adjustedPrimary j)
                                      (readAt adjustedSecondary j) (readAt adjustedTertiary j))
                               [0..<CHUNK_SIZE];
                  recoveredData1 = map (\<lambda>(x, y, z). x) solved;
                  recoveredData2 = map (\<lambda>(x, y, z). y) solved;
                  recoveredData3 = map (\<lambda>(x, y, z). z) solved;
                  len1 = actualLengthLoop recoveredData1 (length recoveredData1);
                  len2 = actualLengthLoop recoveredData2 (length recoveredData2);
                  len3 = actualLengthLoop recoveredData3 (length recoveredData3)
              in if 0 < len1 \<and> 0 < len2 \<and> 0 < len3
                 then AList.update missing3 (take len3 recoveredData3)
                        (AList.update missing2 (take len2 recoveredData2)
                           [(missing1, take len1 recoveredData1)])
                 else [])
         | _ \<Rightarrow> [])"

text \<open>
  \<open>recoverChunks\<close>. The maps are association lists in insertion order, read with
  \<open>map_of\<close> and written with \<open>AList.update\<close> (\<open>Map.set\<close>: an existing key keeps its place).
  The result is the map \<open>recovered\<close>, or the \<open>RangeError\<close> that escapes the single-loss
  branch.
\<close>

definition recoverChunks ::
  "(int \<times> bytes) list \<Rightarrow> (string \<times> bytes) list \<Rightarrow> int \<Rightarrow> int \<Rightarrow> FECScheme
     \<Rightarrow> jsError + (int \<times> bytes) list" where
  "recoverChunks chunks' parity' groupStart groupSize' scheme =
     (if parityCount scheme = 0 then Inr []
      else
        (let groupEnd = groupStart + groupSize' - 1;
             missingIndices = filter (\<lambda>i. map_of chunks' i = None) [groupStart..groupEnd];
             presentChunks = map (\<lambda>i. (i, the (map_of chunks' i)))
                               (filter (\<lambda>i. map_of chunks' i \<noteq> None) [groupStart..groupEnd]);
             primaryParityKey = createParityKey groupStart groupEnd ''0'';
             secondaryParityKey = createParityKey groupStart groupEnd ''1'';
             tertiaryParityKey = createParityKey groupStart groupEnd ''2'';
             hasPrimary = (map_of parity' primaryParityKey \<noteq> None);
             hasSecondary = (map_of parity' secondaryParityKey \<noteq> None)
         in if length missingIndices = 1 \<and> hasPrimary then
              recoverSingle (missingIndices ! 0) (the (map_of parity' primaryParityKey))
                presentChunks
            else if length missingIndices = 2 \<and> hasPrimary \<and> hasSecondary then
              Inr (recoverDouble groupStart missingIndices
                     (the (map_of parity' primaryParityKey))
                     (the (map_of parity' secondaryParityKey)) presentChunks)
            else if length missingIndices = 3 \<and> 3 \<le> parityCount scheme \<and> hasPrimary
                    \<and> hasSecondary \<and> map_of parity' tertiaryParityKey \<noteq> None then
              Inr (recoverTriple groupStart missingIndices
                     (the (map_of parity' primaryParityKey))
                     (the (map_of parity' secondaryParityKey))
                     (the (map_of parity' tertiaryParityKey)) presentChunks)
            else Inr []))"

subsection \<open>Receive sessions\<close>

text \<open>
  A receive session as the entries of \<open>receiveSessions\<close> hold it (\<open>total\<close> is
  \<open>sess_total\<close> here). The timers of \<open>setTimeout\<close> are part of the receiver's state:
  \<open>timers\<close> maps a pending timer to the session it will delete and its delay,
  \<open>clearTimeout\<close> removes the entry.
\<close>

record session =
  sess_total :: int
  expectedHash :: string
  flags :: string
  fecScheme :: FECScheme
  chunks :: "(int \<times> bytes) list"
  parity :: "(string \<times> bytes) list"
  timeoutId :: nat
  receivedPackets :: "string set"

record receiver =
  receiveSessions :: "string \<rightharpoonup> session"
  timers :: "nat \<rightharpoonup> string \<times> int"
  nextTimerId :: nat

definition emptyReceiver :: receiver where
  "emptyReceiver = \<lparr>receiveSessions = Map.empty, timers = Map.empty, nextTimerId = 0\<rparr>"

text \<open>
  What the service takes from outside this file: the MD5 digest in base-64
  (\<open>CryptoJS\<close>), \<open>gunzip\<close> and \<open>gzip\<close> (\<open>fflate\<close>; \<open>None\<close> is a rejected promise), the
  file adapter behind \<open>handleFilePacket\<close>, and the protocol name given by
  \<open>inferCurrentProtocol\<close>.
\<close>

record ext =
  md5Base64 :: "bytes \<Rightarrow> string"
  decompressData :: "bytes \<Rightarrow> bytes option"
  compressData :: "bytes \<Rightarrow> bytes"
  handleFilePacket :: "string \<Rightarrow> string option"
  inferCurrentProtocol :: string

text \<open>The callback of the session timer.\<close>

definition timeoutFires :: "nat \<Rightarrow> receiver \<Rightarrow> receiver" where
  "timeoutFires tid r =
     (case timers r tid of
        None \<Rightarrow> r
      | Some (sessionId, ms) \<Rightarrow>
          r\<lparr>receiveSessions := (receiveSessions r)(sessionId := None),
            timers := (timers r)(tid := None)\<rparr>)"

text \<open>
  The flow of control after a \<open>case\<close> of the \<open>switch\<close>: \<open>break\<close> goes on to the
  finalisation, \<open>return null\<close> leaves the function.
\<close>

datatype flow = Break | ReturnNull

datatype outcome = Return "string option" | Throw jsError

text \<open>The first match of \<open>/F([A-Z_0-9]+)/\<close>: its capture group.\<close>

definition isSchemeChar :: "char \<Rightarrow> bool" where
  "isSchemeChar c =
     (let n = (of_char c :: nat) in (65 \<le> n \<and> n \<le> 90) \<or> n = 95 \<or> (48 \<le> n \<and> n \<le> 57))"

fun fecMatch :: "string \<Rightarrow> string option" where
  "fecMatch [] = None"
| "fecMatch (c # cs) =
     (if c = CHR ''F'' \<and> takeWhile isSchemeChar cs \<noteq> [] then Some (takeWhile isSchemeChar cs)
      else fecMatch cs)"

definition parseFecScheme :: "string \<Rightarrow> FECScheme" where
  "parseFecScheme flags' =
     (case fecMatch flags' of
        Some schemeName \<Rightarrow>
          (case map_of FEC_SCHEMES schemeName of
             Some scheme \<Rightarrow> scheme
           | None \<Rightarrow> DEFAULT_FEC_SCHEME)
      | None \<Rightarrow> DEFAULT_FEC_SCHEME)"

definition caseS :: "ext \<Rightarrow> string list \<Rightarrow> string \<Rightarrow> string \<Rightarrow> receiver \<Rightarrow> receiver \<times> flow" where
  "caseS x parts sessionId packetId r =
     (if length parts < 5 then (r, ReturnNull)
      else
        (let expectedHash' = parts ! 3;
             flags' = partOr parts 5 []
         in case parseInt10 (parts ! 4) of
              None \<Rightarrow> (r, ReturnNull)
            | Some total' \<Rightarrow>
                if expectedHash' = [] then (r, ReturnNull)
                else
                  (let fecScheme' = parseFecScheme flags';
                       r1 = (case receiveSessions r sessionId of
                               Some old \<Rightarrow>
                                 r\<lparr>receiveSessions := (receiveSessions r)(sessionId := None),
                                   timers := (timers r)(timeoutId old := None)\<rparr>
                             | None \<Rightarrow> r);
                       timeoutMs = calculateTimeout total' (Some (inferCurrentProtocol x));
                       timeoutId' = nextTimerId r1
                   in (r1\<lparr>receiveSessions := (receiveSessions r1)(sessionId \<mapsto>
                             \<lparr>sess_total = total', expectedHash = expectedHash',
                              flags = flags', fecScheme = fecScheme', chunks = [], parity = [],
                              timeoutId = timeoutId', receivedPackets = {packetId}\<rparr>),
                          timers := (timers r1)(timeoutId' \<mapsto> (sessionId, timeoutMs)),
                          nextTimerId := timeoutId' + 1\<rparr>, Break))))"

definition caseD :: "string list \<Rightarrow> string \<Rightarrow> string \<Rightarrow> receiver \<Rightarrow> receiver \<times> flow" where
  "caseD parts sessionId packetId r =
     (if length parts < 4 then (r, ReturnNull)
      else
        (let dataBase64 = join CHR '':'' (drop 3 parts)
         in case parseInt10 (parts ! 2) of
              None \<Rightarrow> (r, ReturnNull)
            | Some seqNum \<Rightarrow>
                (case receiveSessions r sessionId of
                   None \<Rightarrow> (r, ReturnNull)
                 | Some sess \<Rightarrow>
                     if packetId \<in> receivedPackets sess then (r, Break)
                     else
                       (let sess1 = sess\<lparr>receivedPackets := insert packetId (receivedPackets sess)\<rparr>
                        in case validateAndDecodeBase64 dataBase64 of
                             Some dataBytes \<Rightarrow>
                               (r\<lparr>receiveSessions := (receiveSessions r)(sessionId \<mapsto>
                                     sess1\<lparr>chunks := AList.update seqNum dataBytes (chunks sess1)\<rparr>)\<rparr>,
                                Break)
                           | None \<Rightarrow>
                               (r\<lparr>receiveSessions := (receiveSessions r)(sessionId \<mapsto> sess1)\<rparr>,
                                ReturnNull)))))"

definition caseP :: "string list \<Rightarrow> string \<Rightarrow> string \<Rightarrow> receiver \<Rightarrow> receiver \<times> flow" where
  "caseP parts sessionId packetId r =
     (if length parts < 4 then (r, ReturnNull)
      else
        (let rangeStr = parts ! 2;
             parityBase64 = parts ! 3
         in case receiveSessions r sessionId of
              None \<Rightarrow> (r, ReturnNull)
            | Some sess \<Rightarrow>
                if packetId \<in> receivedPackets sess then (r, Break)
                else
                  (let sess1 = sess\<lparr>receivedPackets := insert packetId (receivedPackets sess)\<rparr>
                   in case validateAndDecodeBase64 parityBase64 of
                        Some parityBytes \<Rightarrow>
                          (let normalizedRangeStr = normalizeSequencia rangeStr
                           in (r\<lparr>receiveSessions := (receiveSessions r)(sessionId \<mapsto>
                                   sess1\<lparr>parity := AList.update normalizedRangeStr parityBytes
                                                     (parity sess1)\<rparr>)\<rparr>,
                               Break))
                      | None \<Rightarrow>
                          (r\<lparr>receiveSessions := (receiveSessions r)(sessionId \<mapsto> sess1)\<rparr>,
                           ReturnNull))))"

definition caseE :: "string \<Rightarrow> string \<Rightarrow> receiver \<Rightarrow> receiver \<times> flow" where
  "caseE sessionId packetId r =
     (case receiveSessions r sessionId of
        None \<Rightarrow> (r, ReturnNull)
      | Some sess \<Rightarrow>
          if packetId \<in> receivedPackets sess then (r, Break)
          else
            (r\<lparr>receiveSessions := (receiveSessions r)(sessionId \<mapsto>
                  sess\<lparr>receivedPackets := insert packetId (receivedPackets sess)\<rparr>)\<rparr>,
             Break))"

subsection \<open>The recovery passes after every packet\<close>

text \<open>
  Each pass mutates \<open>sess.chunks\<close> in place, so a \<open>RangeError\<close> leaves the chunks written
  so far: a pass returns the chunks together with the error, if one was thrown.
\<close>

fun applyRecovered :: "(int \<times> bytes) list \<Rightarrow> (int \<times> bytes) list \<Rightarrow> (int \<times> bytes) list" where
  "applyRecovered [] cs = cs"
| "applyRecovered ((index, d) # rs) cs = applyRecovered rs (AList.update index d cs)"

fun applyRecoveredIfAbsent ::
  "(int \<times> bytes) list \<Rightarrow> (int \<times> bytes) list \<Rightarrow> (int \<times> bytes) list" where
  "applyRecoveredIfAbsent [] cs = cs"
| "applyRecoveredIfAbsent ((index, d) # rs) cs =
     applyRecoveredIfAbsent rs (if map_of cs index = None then AList.update index d cs else cs)"

text \<open>\<open>Math.ceil(total / groupSize)\<close> for a positive \<open>groupSize\<close>.\<close>

definition ceilDiv :: "int \<Rightarrow> int \<Rightarrow> int" where
  "ceilDiv a b = - ((- a) div b)"

function standardPass ::
  "int \<Rightarrow> int \<Rightarrow> session \<Rightarrow> (int \<times> bytes) list \<Rightarrow> (int \<times> bytes) list \<times> jsError option" where
  "standardPass g totalGroups sess cs =
     (if g \<le> totalGroups then
        (let startSeq = (g - 1) * groupSize (fecScheme sess) + 1
         in case recoverChunks cs (parity sess) startSeq (groupSize (fecScheme sess))
                   (fecScheme sess) of
              Inl e \<Rightarrow> (cs, Some e)
            | Inr recovered \<Rightarrow> standardPass (g + 1) totalGroups sess (applyRecovered recovered cs))
      else (cs, None))"
  by pat_completeness auto
termination
  by (relation "measure (\<lambda>(g, t, _, _). nat (t + 1 - g))") auto

declare standardPass.simps [simp del]

fun overlappingPass ::
  "fecGroup list \<Rightarrow> session \<Rightarrow> (int \<times> bytes) list \<Rightarrow> (int \<times> bytes) list \<times> jsError option" where
  "overlappingPass [] sess cs = (cs, None)"
| "overlappingPass (grp # groups) sess cs =
     (case recoverChunks cs (parity sess) (g_start grp) (g_end grp - g_start grp + 1)
             ((fecScheme sess)\<lparr>parityCount := 1\<rparr>) of
        Inl e \<Rightarrow> (cs, Some e)
      | Inr recovered \<Rightarrow> overlappingPass groups sess (applyRecoveredIfAbsent recovered cs))"

text \<open>
  The groups the receiver walks in its overlapping pass:
  \<open>generateOverlappingGroups(sess.total).filter(group => group.type.startsWith('O'))\<close>.
\<close>

definition overlappingOnlyGroups :: "int \<Rightarrow> fecGroup list" where
  "overlappingOnlyGroups total' =
     filter (\<lambda>grp. startsWith (g_type grp) ''O'') (generateOverlappingGroups total')"

text \<open>
  \<open>attemptAggressiveRecovery\<close>: one step per entry of \<open>sess.parity\<close>, in insertion order.
\<close>

definition aggressiveStep ::
  "string \<Rightarrow> bytes \<Rightarrow> (int \<times> bytes) list \<Rightarrow> jsError + (int \<times> bytes) list" where
  "aggressiveStep parityKey parityData cs =
     (let sequenciaInfo = parseSequencia parityKey
      in if \<not> isValid sequenciaInfo then Inr cs
         else
           (let startSeq = the (inicio sequenciaInfo);
                endSeq = the (fim sequenciaInfo);
                parityType = tipo sequenciaInfo;
                missingInGroup = filter (\<lambda>i. map_of cs i = None) [startSeq..endSeq]
            in if length missingInGroup = 1 \<and> parityType = ''0'' then
                 (case applyPresent
                         (map (\<lambda>i. the (map_of cs i))
                            (filter (\<lambda>i. map_of cs i \<noteq> None) [startSeq..endSeq]))
                         parityData of
                    Inl e \<Rightarrow> Inl e
                  | Inr recoveredData \<Rightarrow>
                      (let actualLength = actualLengthLoop recoveredData (length recoveredData)
                       in if 0 < actualLength
                          then Inr (AList.update (missingInGroup ! 0)
                                      (take actualLength recoveredData) cs)
                          else Inr cs))
               else Inr cs))"

fun attemptAggressiveRecovery ::
  "(string \<times> bytes) list \<Rightarrow> (int \<times> bytes) list \<Rightarrow> (int \<times> bytes) list \<times> jsError option" where
  "attemptAggressiveRecovery [] cs = (cs, None)"
| "attemptAggressiveRecovery ((parityKey, parityData) # ps) cs =
     (case aggressiveStep parityKey parityData cs of
        Inl e \<Rightarrow> (cs, Some e)
      | Inr cs' \<Rightarrow> attemptAggressiveRecovery ps cs')"

definition fecRecovery :: "session \<Rightarrow> (int \<times> bytes) list \<times> jsError option" where
  "fecRecovery sess =
     (if 0 < groupSize (fecScheme sess) then
        (case standardPass 1 (ceilDiv (sess_total sess) (groupSize (fecScheme sess))) sess
                (chunks sess) of
           (cs1, Some e) \<Rightarrow> (cs1, Some e)
         | (cs1, None) \<Rightarrow>
             (case (if overlap (fecScheme sess)
                    then overlappingPass (overlappingOnlyGroups (sess_total sess)) sess cs1
                    else (cs1, None)) of
                (cs2, Some e) \<Rightarrow> (cs2, Some e)
              | (cs2, None) \<Rightarrow>
                  if int (length cs2) < sess_total sess \<and> 0 < length (parity sess)
                  then attemptAggressiveRecovery (parity sess) cs2
                  else (cs2, None)))
      else (chunks sess, None))"

subsection \<open>Completion and delivery\<close>

text \<open>The chunks sorted by sequence number and concatenated.\<close>

definition fullDataOf :: "(int \<times> bytes) list \<Rightarrow> bytes" where
  "fullDataOf cs = concat (map snd (sort_key fst cs))"

text \<open>
  The delivery after a matching hash: the \<open>try\<close> block decompresses when the flags
  contain \<open>C\<close>; when that is rejected, the \<open>catch\<close> block falls back to the raw
  concatenation. A text that starts with \<open>FILE:\<close> goes to the file adapter.
\<close>

definition deliver :: "ext \<Rightarrow> session \<Rightarrow> bytes \<Rightarrow> string option" where
  "deliver x sess fullData =
     (let route = (\<lambda>msg. if startsWith msg ''FILE:'' then handleFilePacket x msg else Some msg)
      in if str_includes (flags sess) ''C'' then
           (case decompressData x fullData of
              Some decompressed \<Rightarrow> route (textDecode decompressed)
            | None \<Rightarrow> route (textDecode fullData))
         else route (textDecode fullData))"

definition finalizeSession :: "ext \<Rightarrow> string \<Rightarrow> receiver \<Rightarrow> receiver \<times> outcome" where
  "finalizeSession x sessionId r =
     (case receiveSessions r sessionId of
        None \<Rightarrow> (r, Return None)
      | Some sess \<Rightarrow>
          (case fecRecovery sess of
             (cs, Some e) \<Rightarrow>
               (r\<lparr>receiveSessions := (receiveSessions r)(sessionId \<mapsto> sess\<lparr>chunks := cs\<rparr>)\<rparr>,
                Throw e)
           | (cs, None) \<Rightarrow>
               if int (length cs) = sess_total sess then
                 (let fullData = fullDataOf cs;
                      hashCheck = md5Base64 x fullData;
                      r' = r\<lparr>receiveSessions := (receiveSessions r)(sessionId := None),
                             timers := (timers r)(timeoutId sess := None)\<rparr>
                  in if hashCheck = expectedHash sess then (r', Return (deliver x sess fullData))
                     else (r', Return None))
               else
                 (r\<lparr>receiveSessions := (receiveSessions r)(sessionId \<mapsto> sess\<lparr>chunks := cs\<rparr>)\<rparr>,
                  Return None)))"

text \<open>\<open>handleReceivedPacket\<close>: the new receiver state and what the call returns.\<close>

definition dispatch ::
  "ext \<Rightarrow> string \<Rightarrow> string list \<Rightarrow> string \<Rightarrow> string \<Rightarrow> receiver \<Rightarrow> receiver \<times> flow" where
  "dispatch x type' parts sessionId packetId r =
     (if type' = ''S'' then caseS x parts sessionId packetId r
      else if type' = ''D'' then caseD parts sessionId packetId r
      else if type' = ''P'' then caseP parts sessionId packetId r
      else caseE sessionId packetId r)"

definition handleReceivedPacket :: "ext \<Rightarrow> string \<Rightarrow> receiver \<Rightarrow> receiver \<times> outcome" where
  "handleReceivedPacket x raw r =
     (let parts = split CHR '':'' raw
      in if length parts < 2 then (r, Return None)
         else
           (let type' = parts ! 0;
                sessionId = parts ! 1
            in if type' = ''FILE'' then (r, Return (handleFilePacket x raw))
               else if type' \<notin> {''S'', ''D'', ''P'', ''E''} then (r, Return (Some raw))
               else
                 (let packetId = type' @ '':'' @ sessionId @ '':'' @ partOr parts 2 []
                  in case dispatch x type' parts sessionId packetId r of
                       (r', ReturnNull) \<Rightarrow> (r', Return None)
                     | (r', Break) \<Rightarrow> finalizeSession x sessionId r')))"

subsection \<open>The sender\<close>

text \<open>
  \<open>chunkBytes\<close>: \<open>for (i = 0; i < data.length; i += size) chunks.push(data.slice(i, i +
  size))\<close>. The service calls it with \<open>CHUNK_SIZE\<close> only; with \<open>size = 0\<close> the source
  would not advance, and the model stops.
\<close>

function chunkBytes :: "bytes \<Rightarrow> nat \<Rightarrow> bytes list" where
  "chunkBytes data size' =
     (if data = [] \<or> size' = 0 then []
      else take size' data # chunkBytes (drop size' data) size')"
  by pat_completeness auto
termination
  by (relation "measure (\<lambda>(d, _). length d)") auto

declare chunkBytes.simps [simp del]

text \<open>\<open>chunks.slice(a, b)\<close> for \<open>0 \<le> a\<close>, as the groups of the plan give it.\<close>

definition slice :: "'a list \<Rightarrow> int \<Rightarrow> int \<Rightarrow> 'a list" where
  "slice xs a b = take (nat b - nat a) (drop (nat a) xs)"

definition fecFlagOf :: "FECScheme \<Rightarrow> string" where
  "fecFlagOf fecScheme' =
     CHR ''F'' # (case find (\<lambda>(k, scheme). scheme = fecScheme') FEC_SCHEMES of
                   Some (k, scheme) \<Rightarrow> k
                 | None \<Rightarrow> ''BASIC_3'')"

definition dataPacket :: "string \<Rightarrow> int \<Rightarrow> bytes \<Rightarrow> string" where
  "dataPacket id' seqNum chunk = ''D:'' @ id' @ '':'' @ numToString seqNum @ '':'' @ btoa chunk"

fun dataPackets :: "string \<Rightarrow> int \<Rightarrow> bytes list \<Rightarrow> string list" where
  "dataPackets id' seqNum [] = []"
| "dataPackets id' seqNum (chunk # rest) =
     dataPacket id' seqNum chunk # dataPackets id' (seqNum + 1) rest"

definition parityPacketOf ::
  "string \<Rightarrow> bytes list \<Rightarrow> FECScheme \<Rightarrow> fecGroup \<Rightarrow> jsError + string list" where
  "parityPacketOf id' chunks' fecScheme' grp =
     (let groupChunks = slice chunks' (g_start grp - 1) (g_end grp);
          isO = startsWith (g_type grp) ''O'';
          parityCount' = (if isO then 1
                          else if parityCount fecScheme' = 0 then 1 else parityCount fecScheme')
      in case generateParityData groupChunks (fecScheme'\<lparr>parityCount := parityCount'\<rparr>) of
           Inl e \<Rightarrow> Inl e
         | Inr parities \<Rightarrow>
             (case (if isO then Some 0 else parseInt (g_type grp)) of
                None \<Rightarrow> Inr []
              | Some parityIndex \<Rightarrow>
                  if 0 \<le> parityIndex \<and> parityIndex < int (length parities) then
                    Inr [''P:'' @ id' @ '':''
                           @ createParityKey (g_start grp) (g_end grp) (g_type grp)
                           @ '':'' @ btoa (parities ! nat parityIndex)]
                  else Inr []))"

fun parityPackets ::
  "string \<Rightarrow> bytes list \<Rightarrow> FECScheme \<Rightarrow> fecGroup list \<Rightarrow> jsError + string list" where
  "parityPackets id' chunks' fecScheme' [] = Inr []"
| "parityPackets id' chunks' fecScheme' (grp # groups) =
     (case parityPacketOf id' chunks' fecScheme' grp of
        Inl e \<Rightarrow> Inl e
      | Inr ps \<Rightarrow>
          (case parityPackets id' chunks' fecScheme' groups of
             Inl e \<Rightarrow> Inl e
           | Inr rest \<Rightarrow> Inr (ps @ rest)))"

text \<open>
  \<open>sendLargeData\<close>: the frames handed to \<open>transmitPacket\<close>, in order. The session id is
  an argument (the source draws it from the clock and \<open>Math.random\<close>).
\<close>

definition sendLargeData ::
  "ext \<Rightarrow> string \<Rightarrow> string \<Rightarrow> bool \<Rightarrow> FECScheme \<Rightarrow> jsError + string list" where
  "sendLargeData x id' message compress fecScheme' =
     (let data0 = textEncode message;
          data = (if compress then compressData x data0 else data0);
          flags' = (if compress then ''C'' else []);
          fullHash = md5Base64 x data;
          chunks' = chunkBytes data CHUNK_SIZE;
          total' = int (length chunks');
          fecFlag = fecFlagOf fecScheme';
          allFlags = join CHR '','' (filter (\<lambda>f. f \<noteq> []) [flags', fecFlag]);
          startPacket =
            (if allFlags \<noteq> []
             then ''S:'' @ id' @ ''::'' @ fullHash @ '':'' @ numToString total' @ '':'' @ allFlags
             else ''S:'' @ id' @ ''::'' @ fullHash @ '':'' @ numToString total');
          endPacket = ''E:'' @ id' @ ''::''
      in case (if 0 < groupSize fecScheme'
               then parityPackets id' chunks' fecScheme' (generateFECGroups total' fecScheme')
               else Inr []) of
           Inl e \<Rightarrow> Inl e
         | Inr pps \<Rightarrow> Inr ([startPacket] @ dataPackets id' 1 chunks' @ pps @ [endPacket]))"

text \<open>Feeding a list of frames to the receiver: the final state and what each call returned.\<close>

fun receiveAll :: "ext \<Rightarrow> string list \<Rightarrow> receiver \<Rightarrow> receiver \<times> outcome list" where
  "receiveAll x [] r = (r, [])"
| "receiveAll x (raw # rest) r =
     (let (r1, out) = handleReceivedPacket x raw r;
          (r2, outs) = receiveAll x rest r1
      in (r2, out # outs))"

subsection \<open>The group plan in the words of the specification\<close>

text \<open>
  Main groups \<open>start = 1, 4, 7, \<dots>\<close> with \<open>end = min(start + 2, total)\<close> and type \<open>0\<close>;
  then, for \<open>i = 2, 3, \<dots>\<close> while \<open>i + 2 \<le> total\<close>, the candidate \<open>(i, i + 2)\<close>, kept
  when it is not the range of a main group, with type \<open>O\<close> followed by the number of
  candidates before it.
\<close>

definition specMainGroups :: "int \<Rightarrow> fecGroup list" where
  "specMainGroups total' =
     map (\<lambda>k. \<lparr>g_start = 1 + 3 * int k, g_end = min (1 + 3 * int k + 2) total', g_type = ''0''\<rparr>)
       [0..<nat ((total' + 2) div 3)]"

definition specIsMainRange :: "int \<Rightarrow> int \<Rightarrow> int \<Rightarrow> bool" where
  "specIsMainRange total' s e = ((s, e) \<in> set (map (\<lambda>g. (g_start g, g_end g)) (specMainGroups total')))"

definition specOverlappingGroups :: "int \<Rightarrow> fecGroup list" where
  "specOverlappingGroups total' =
     map (\<lambda>i. \<lparr>g_start = i, g_end = i + 2, g_type = CHR ''O'' # numToString (i - 2)\<rparr>)
       (filter (\<lambda>i. \<not> specIsMainRange total' i (i + 2)) [2..total' - 2])"

definition specGroupPlan :: "int \<Rightarrow> fecGroup list" where
  "specGroupPlan total' = specMainGroups total' @ specOverlappingGroups total'"

subsection \<open>The timeout multiplier in the words of the specification\<close>


subsection \<open>An outside world for the worked examples\<close>

text \<open>
  The general theorems hold for every \<open>ext\<close>. The worked examples run in this one:
  \<open>exampleMd5\<close> gives the base-64 MD5 digests of the byte strings the examples hash
  (the empty string, \<open>00\<close>, \<open>ABC\<close>, \<open>a\<close>; a filler elsewhere), \<open>gunzip\<close> rejects its
  input (none of the examples is gzip data), the file adapter stores the batch and
  returns \<open>null\<close>, and the protocol is the conservative default \<open>NORMAL\<close>.
\<close>

definition exampleMd5 :: "bytes \<Rightarrow> string" where
  "exampleMd5 bs =
     (if bs = [] then ''1B2M2Y8AsgTpgAmY7PhCfg==''
      else if bs = [0] then ''k7iFrf4NoInN9jSQT9WfcQ==''
      else if bs = [65, 66, 67] then ''kC+90rHfDE9wtKXSNSXpMg==''
      else if bs = [97] then ''DMF1ucDxtqgxw5niaXcmYQ==''
      else ''////////////////////////'')"

definition exampleExt :: ext where
  "exampleExt =
     \<lparr>md5Base64 = exampleMd5, decompressData = (\<lambda>bs. None), compressData = (\<lambda>bs. bs),
      handleFilePacket = (\<lambda>s. None), inferCurrentProtocol = ''NORMAL''\<rparr>"



subsection \<open>What recovery may add to the chunk map\<close>

text \<open>
  A chunk that is not empty and whose last byte is not zero, and the relation between the
  chunk map before and after a recovery pass: every entry of the later map is an entry of
  the earlier one or such a chunk.
\<close>

definition endsNonZero :: "bytes \<Rightarrow> bool" where
  "endsNonZero d = (d \<noteq> [] \<and> last d \<noteq> 0)"

definition onlyAdds :: "(int \<times> bytes) list \<Rightarrow> (int \<times> bytes) list \<Rightarrow> bool" where
  "onlyAdds cs0 cs = (\<forall>i d. map_of cs i = Some d \<longrightarrow> map_of cs0 i = Some d \<or> endsNonZero d)"

text \<open>
  A session of two chunks under \<open>BASIC_4\<close> that holds no chunk and one primary parity for
  the range 1 to 1, the bytes \<open>ABC\<close> followed by two zero bytes.
\<close>

definition exampleLossySession :: session where
  "exampleLossySession =
     \<lparr>sess_total = 2, expectedHash = ''h'', flags = ''FBASIC_4'', fecScheme = FEC_BASIC_4,
      chunks = [], parity = [(''1-1-0'', [65, 66, 67, 0, 0])], timeoutId = 0,
      receivedPackets = {''S:a:'', ''P:a:1-1-0''}\<rparr>"

subsection \<open>The iterations of the main-group loop\<close>

text \<open>
  The group and the key of iteration \<open>k\<close> (from 0) of the first loop of
  \<open>generateOverlappingGroups\<close>, and the number of its iterations.
\<close>

definition mainGroupAt :: "int \<Rightarrow> nat \<Rightarrow> fecGroup" where
  "mainGroupAt total' k =
     \<lparr>g_start = 1 + 3 * int k, g_end = min (1 + 3 * int k + 2) total', g_type = ''0''\<rparr>"

definition mainKeyAt :: "int \<Rightarrow> nat \<Rightarrow> string" where
  "mainKeyAt total' k = rangeKey (1 + 3 * int k) (min (1 + 3 * int k + 2) total')"

definition mainGroupCount :: "int \<Rightarrow> nat" where
  "mainGroupCount total' = nat ((total' + 2) div 3)"

subsection \<open>One withheld DATA frame: names for the proof\<close>








definition padded :: "bytes \<Rightarrow> bytes" where
  "padded c = c @ replicate (CHUNK_SIZE - length c) 0"


definition xorFold :: "bytes \<Rightarrow> bytes list \<Rightarrow> bytes" where
  "xorFold r ds = foldl xorInto r (map padded ds)"

text \<open>
  Chunk \<open>k\<close> by its sequence number (from 1), and the chunk map of a receiver that got
  every DATA frame but the one of chunk \<open>k\<close>, in the order of arrival.
\<close>

definition chunkAt :: "bytes list \<Rightarrow> int \<Rightarrow> bytes" where
  "chunkAt cs i = cs ! nat (i - 1)"


text \<open>
  The main group \<open>q\<close> (from 0) of a plan with group size \<open>gs\<close> over \<open>n\<close> chunks: its range,
  its parity key, its primary parity and its PARITY frame; \<open>groupOf gs k\<close> is the main
  group that holds chunk \<open>k\<close>. \<open>heldParity\<close> is the parity map of a receiver after the
  PARITY frames of the main groups before \<open>q\<close>, \<open>parityId\<close> the packet id of such a frame,
  and \<open>groupFrame\<close> the PARITY frame of any group of the plan.
\<close>

definition mainStart :: "int \<Rightarrow> nat \<Rightarrow> int" where
  "mainStart gs q = 1 + gs * int q"

definition mainEnd :: "int \<Rightarrow> int \<Rightarrow> nat \<Rightarrow> int" where
  "mainEnd gs n q = min (gs + gs * int q) n"



definition mainParityKey :: "int \<Rightarrow> int \<Rightarrow> nat \<Rightarrow> string" where
  "mainParityKey gs n q = createParityKey (mainStart gs q) (mainEnd gs n q) ''0''"

definition groupParity :: "bytes list \<Rightarrow> int \<Rightarrow> int \<Rightarrow> bytes" where
  "groupParity cs s e = xorFold (replicate CHUNK_SIZE 0) (map (chunkAt cs) [s..e])"

definition heldParity :: "bytes list \<Rightarrow> int \<Rightarrow> nat \<Rightarrow> (string \<times> bytes) list" where
  "heldParity cs gs q =
     map (\<lambda>q'. (mainParityKey gs (int (length cs)) q',
                 groupParity cs (mainStart gs q') (mainEnd gs (int (length cs)) q'))) [0..<q]"




section \<open>Properties\<close>

subsection \<open>Evaluation of the text primitives\<close>

lemmas parse_defs =
  parseInt10_def parseInt_def splitSign_def signedValue_def digitsValue_def isDigit_def
  hexVal_def isWhiteSpace_def

lemmas b64_defs =
  validateAndDecodeBase64_def base64Regex_def atob_def stripPadding_def isB64Char_def
  b64val_def

subsection \<open>Adaptive timeout\<close>





subsection \<open>Splitting frames\<close>

lemma split_not_Nil [simp]: "split c s \<noteq> []"
  by (induction s) (auto split: list.splits)

lemma split_no_sep: "c \<notin> set a \<Longrightarrow> split c a = [a]"
  by (induction a) auto


lemma split_length_ge2: "c \<in> set s \<Longrightarrow> 2 \<le> length (split c s)"
proof (induction s)
  case Nil then show ?case by simp
next
  case (Cons x xs)
  show ?case
  proof (cases "x = c")
    case True
    have "1 \<le> length (split c xs)" by (cases "split c xs") simp_all
    with True show ?thesis by simp
  next
    case False
    with Cons have "2 \<le> length (split c xs)" by simp
    with False show ?thesis by (cases "split c xs") auto
  qed
qed

lemma split_hd: "hd (split c s) = takeWhile (\<lambda>x. x \<noteq> c) s"
  by (induction s) (auto split: list.splits)

lemma split_nth0: "split c s ! 0 = takeWhile (\<lambda>x. x \<noteq> c) s"
  using split_hd [of c s] by (cases "split c s") simp_all

lemma takeWhile_sep:
  assumes "c \<notin> set t"
  shows "takeWhile (\<lambda>x. x \<noteq> c) (t @ c # rest) = t"
proof -
  have "takeWhile (\<lambda>x. x \<noteq> c) (t @ c # rest) = t @ takeWhile (\<lambda>x. x \<noteq> c) (c # rest)"
    by (rule takeWhile_append2) (use assms in auto)
  then show ?thesis by simp
qed

lemma startsWith_sep_iff:
  assumes "c \<notin> set t"
  shows "startsWith s (t @ [c]) \<longleftrightarrow> (takeWhile (\<lambda>x. x \<noteq> c) s = t \<and> c \<in> set s)"
proof
  assume "startsWith s (t @ [c])"
  then have "take (Suc (length t)) s = t @ [c]" by (simp add: startsWith_def)
  then have "s = (t @ [c]) @ drop (Suc (length t)) s"
    using append_take_drop_id [of "Suc (length t)" s] by simp
  then obtain rest where s: "s = t @ c # rest" by simp
  show "takeWhile (\<lambda>x. x \<noteq> c) s = t \<and> c \<in> set s"
    using takeWhile_sep [OF assms, of rest] s by simp
next
  assume a: "takeWhile (\<lambda>x. x \<noteq> c) s = t \<and> c \<in> set s"
  have s: "s = t @ dropWhile (\<lambda>x. x \<noteq> c) s"
    using a takeWhile_dropWhile_id [of "\<lambda>x. x \<noteq> c" s] by simp
  from a have ne: "dropWhile (\<lambda>x. x \<noteq> c) s \<noteq> []" by (simp add: dropWhile_eq_Nil_conv)
  then have "hd (dropWhile (\<lambda>x. x \<noteq> c) s) = c"
    using hd_dropWhile [of "\<lambda>x. x \<noteq> c" s] by simp
  with ne obtain rest where "dropWhile (\<lambda>x. x \<noteq> c) s = c # rest"
    by (cases "dropWhile (\<lambda>x. x \<noteq> c) s") simp_all
  with s have "s = t @ c # rest" by simp
  then have "take (Suc (length t)) s = t @ [c]" by simp
  then show "startsWith s (t @ [c])" by (simp add: startsWith_def)
qed

subsection \<open>Frames without a structured prefix\<close>

text \<open>
  C8, as amended. A frame that starts with none of \<open>S:\<close>, \<open>D:\<close>, \<open>P:\<close>, \<open>E:\<close>, \<open>FILE:\<close>
  leaves the receiver state unchanged; \<open>handleReceivedPacket\<close> returns the frame itself
  when the frame contains a colon, and \<open>null\<close> when it contains none (the guard
  \<open>parts.length < 2\<close>).
\<close>

theorem plaintext_passthrough:
  assumes "\<not> startsWith raw ''S:''" and "\<not> startsWith raw ''D:''" and "\<not> startsWith raw ''P:''"
    and "\<not> startsWith raw ''E:''" and "\<not> startsWith raw ''FILE:''"
  shows "handleReceivedPacket x raw r =
           (r, Return (if CHR '':'' \<in> set raw then Some raw else None))"
proof (cases "CHR '':'' \<in> set raw")
  case False
  then show ?thesis by (simp add: handleReceivedPacket_def split_no_sep)
next
  case True
  have t: "takeWhile (\<lambda>x. x \<noteq> CHR '':'') raw \<notin> {''S'', ''D'', ''P'', ''E'', ''FILE''}"
    using assms True
      startsWith_sep_iff [of "CHR '':''" "''S''" raw] startsWith_sep_iff [of "CHR '':''" "''D''" raw]
      startsWith_sep_iff [of "CHR '':''" "''P''" raw] startsWith_sep_iff [of "CHR '':''" "''E''" raw]
      startsWith_sep_iff [of "CHR '':''" "''FILE''" raw]
    by auto
  from True have "\<not> length (split CHR '':'' raw) < 2" using split_length_ge2 [of "CHR '':''" raw] by simp
  with t True show ?thesis
    by (simp add: handleReceivedPacket_def Let_def split_nth0)
qed


theorem plaintext_passthrough_witness:
  "handleReceivedPacket exampleExt ''he:llo'' emptyReceiver = (emptyReceiver, Return (Some ''he:llo''))"
proof -
  have h: "\<not> startsWith ''he:llo'' ''S:''" "\<not> startsWith ''he:llo'' ''D:''"
    "\<not> startsWith ''he:llo'' ''P:''" "\<not> startsWith ''he:llo'' ''E:''"
    "\<not> startsWith ''he:llo'' ''FILE:''"
    by (simp_all add: startsWith_def)
  show ?thesis
    using plaintext_passthrough [OF h, of exampleExt emptyReceiver] by simp
qed

text \<open>
  C8 as stated fails on a frame without a colon: \<open>hello\<close> starts with no structured
  prefix, and the call returns \<open>null\<close>, not the frame.
\<close>

theorem plaintext_without_colon_counterexample:
  "\<not> startsWith ''hello'' ''S:'' \<and> \<not> startsWith ''hello'' ''D:'' \<and> \<not> startsWith ''hello'' ''P:'' \<and>
   \<not> startsWith ''hello'' ''E:'' \<and> \<not> startsWith ''hello'' ''FILE:'' \<and>
   snd (handleReceivedPacket exampleExt ''hello'' emptyReceiver) = Return None \<and>
   snd (handleReceivedPacket exampleExt ''hello'' emptyReceiver) \<noteq> Return (Some ''hello'')"
  by (simp add: startsWith_def handleReceivedPacket_def)

subsection \<open>A START frame for an empty payload\<close>

lemma generateOverlappingGroups_nonpos: "t \<le> 0 \<Longrightarrow> generateOverlappingGroups t = []"
  by (simp add: generateOverlappingGroups_def mainGroupsLoop.simps overlappingGroupsLoop.simps)

lemma standardPass_done: "t < g \<Longrightarrow> standardPass g t sess cs = (cs, None)"
  by (simp add: standardPass.simps)

lemma fecRecovery_total0:
  assumes "sess_total sess = 0" and "chunks sess = []"
  shows "fecRecovery sess = ([], None)"
  using assms
  by (simp add: fecRecovery_def ceilDiv_def standardPass_done overlappingOnlyGroups_def
      generateOverlappingGroups_nonpos)

lemma deliver_empty:
  assumes "decompressData x [] = None"
  shows "deliver x sess [] = Some []"
  using assms by (simp add: deliver_def textDecode_def startsWith_def Let_def)

text \<open>
  C10. A START frame with a non-empty hash field whose \<open>total\<close> field parses to 0 is
  finalised in the same call, whatever the flags: the session is not in the map afterwards,
  its timer and the timer of a replaced session are cleared, and the call returns the empty
  message exactly when the hash field equals the base-64 MD5 of the empty byte string, and
  \<open>null\<close> otherwise. The hypothesis on \<open>gunzip\<close> is its contract on the empty input, which
  is no gzip stream; it matters when the flags contain the letter \<open>C\<close>.
\<close>

theorem start_with_total_zero:
  assumes parts: "split CHR '':'' raw = ''S'' # sessionId # p2 # hash # tot # rest"
    and "hash \<noteq> []" and "parseInt10 tot = Some 0" and "decompressData x [] = None"
  shows "handleReceivedPacket x raw r =
           (r\<lparr>receiveSessions := (receiveSessions r)(sessionId := None),
              timers := (case receiveSessions r sessionId of
                           Some old \<Rightarrow> (timers r)(timeoutId old := None, nextTimerId r := None)
                         | None \<Rightarrow> (timers r)(nextTimerId r := None)),
              nextTimerId := nextTimerId r + 1\<rparr>,
            Return (if md5Base64 x [] = hash then Some [] else None))"
proof -
  let ?parts = "''S'' # sessionId # p2 # hash # tot # rest"
  let ?pid = "''S:'' @ sessionId @ '':'' @ partOr ?parts 2 []"
  let ?sess = "\<lparr>sess_total = 0, expectedHash = hash, flags = partOr ?parts 5 [],
               fecScheme = parseFecScheme (partOr ?parts 5 []),
               chunks = [], parity = [], timeoutId = nextTimerId r, receivedPackets = {?pid}\<rparr>"
  define r1 where "r1 = fst (caseS x ?parts sessionId ?pid r)"
  have d: "caseS x ?parts sessionId ?pid r = (r1, Break)"
    using assms(2,3) by (simp add: r1_def caseS_def Let_def split: option.splits)
  have s1: "receiveSessions r1 = (receiveSessions r)(sessionId \<mapsto> ?sess)"
    using assms(2,3) by (simp add: r1_def caseS_def Let_def split: option.splits)
  have t1: "(timers r1)(nextTimerId r := None) =
            (case receiveSessions r sessionId of
               Some old \<Rightarrow> (timers r)(timeoutId old := None, nextTimerId r := None)
             | None \<Rightarrow> (timers r)(nextTimerId r := None))"
    using assms(2,3) by (simp add: r1_def caseS_def Let_def split: option.splits)
  have n1: "nextTimerId r1 = nextTimerId r + 1"
    using assms(2,3) by (simp add: r1_def caseS_def Let_def split: option.splits)
  have f: "finalizeSession x sessionId r1 =
           (r1\<lparr>receiveSessions := (receiveSessions r1)(sessionId := None),
               timers := (timers r1)(nextTimerId r := None)\<rparr>,
            Return (if md5Base64 x [] = hash then Some [] else None))"
    using assms(4)
    by (simp add: finalizeSession_def s1 fecRecovery_total0 fullDataOf_def deliver_empty Let_def)
  have e: "r1\<lparr>receiveSessions := (receiveSessions r1)(sessionId := None),
               timers := (timers r1)(nextTimerId r := None)\<rparr> =
           r\<lparr>receiveSessions := (receiveSessions r)(sessionId := None),
              timers := (case receiveSessions r sessionId of
                           Some old \<Rightarrow> (timers r)(timeoutId old := None, nextTimerId r := None)
                         | None \<Rightarrow> (timers r)(nextTimerId r := None)),
              nextTimerId := nextTimerId r + 1\<rparr>"
    by (rule receiver.equality) (simp_all add: s1 t1 n1)
  show ?thesis
    using d f e by (simp add: handleReceivedPacket_def parts dispatch_def Let_def)
qed


text \<open>
  The frame is the one \<open>sendLargeData\<close> emits for the empty message, which has no DATA
  and no PARITY frames.
\<close>

theorem start_with_total_zero_witness:
  "sendLargeData exampleExt ''17-000001'' [] False FEC_BASIC_4 =
     Inr [''S:17-000001::1B2M2Y8AsgTpgAmY7PhCfg==:0:FBASIC_4'', ''E:17-000001::''] \<and>
   handleReceivedPacket exampleExt ''S:17-000001::1B2M2Y8AsgTpgAmY7PhCfg==:0:FBASIC_4''
       emptyReceiver =
     (emptyReceiver\<lparr>nextTimerId := 1\<rparr>, Return (Some []))"
proof -
  have s: "sendLargeData exampleExt ''17-000001'' [] False FEC_BASIC_4 =
     Inr [''S:17-000001::1B2M2Y8AsgTpgAmY7PhCfg==:0:FBASIC_4'', ''E:17-000001::'']"
    by code_simp
  have h1: "split CHR '':'' ''S:17-000001::1B2M2Y8AsgTpgAmY7PhCfg==:0:FBASIC_4'' =
              ''S'' # ''17-000001'' # [] # ''1B2M2Y8AsgTpgAmY7PhCfg=='' # ''0'' # [''FBASIC_4'']"
    by simp
  have h2: "''1B2M2Y8AsgTpgAmY7PhCfg=='' \<noteq> []" by simp
  have h3: "parseInt10 ''0'' = Some 0" by (simp add: parse_defs)
  have h4: "decompressData exampleExt [] = None" by (simp add: exampleExt_def)
  have m: "md5Base64 exampleExt [] = ''1B2M2Y8AsgTpgAmY7PhCfg==''"
    by (simp add: exampleExt_def exampleMd5_def)
  show ?thesis
    using s start_with_total_zero [OF h1 h2 h3 h4, of emptyReceiver]
    by (simp add: m emptyReceiver_def)
qed

subsection \<open>The completion check\<close>

lemma partOr_Nil: "i < length ps \<Longrightarrow> partOr ps i [] = ps ! i"
  by (simp add: partOr_def)

lemma finalizeSession_surviving:
  assumes "receiveSessions r sessionId = Some sess"
    and "receiveSessions (fst (finalizeSession x sessionId r)) sessionId = Some s'"
  shows "s' = sess\<lparr>chunks := fst (fecRecovery sess)\<rparr>"
  using assms
  by (auto simp add: finalizeSession_def Let_def split: prod.splits option.splits if_splits)



subsection \<open>PARITY frames of any length\<close>

text \<open>
  C5, as amended. A PARITY frame for an open session that has not seen its packet id,
  with a payload that passes the base-64 validation, is stored in the session's parity map
  under the normalised range, whatever the length of the decoded bytes; the call then runs
  the recovery passes and the completion check, which leave the parity map of a surviving
  session as it is. The receiver has no check of the decoded length.
\<close>

theorem parity_stored_whatever_its_length:
  assumes parts: "split CHR '':'' raw = ''P'' # sessionId # rangeStr # payload # rest"
    and sess: "receiveSessions r sessionId = Some sess"
    and new: "''P:'' @ sessionId @ '':'' @ rangeStr \<notin> receivedPackets sess"
    and dec: "validateAndDecodeBase64 payload = Some parityBytes"
  shows "handleReceivedPacket x raw r =
           finalizeSession x sessionId
             (r\<lparr>receiveSessions := (receiveSessions r)(sessionId \<mapsto>
                  sess\<lparr>receivedPackets := insert (''P:'' @ sessionId @ '':'' @ rangeStr)
                                              (receivedPackets sess),
                       parity := AList.update (normalizeSequencia rangeStr) parityBytes
                                   (parity sess)\<rparr>)\<rparr>) \<and>
         (\<forall>s'. receiveSessions (fst (handleReceivedPacket x raw r)) sessionId = Some s' \<longrightarrow>
               parity s' = AList.update (normalizeSequencia rangeStr) parityBytes (parity sess))"
proof -
  let ?s1 = "sess\<lparr>receivedPackets := insert (''P:'' @ sessionId @ '':'' @ rangeStr)
                                              (receivedPackets sess),
                       parity := AList.update (normalizeSequencia rangeStr) parityBytes
                                   (parity sess)\<rparr>"
  let ?r1 = "r\<lparr>receiveSessions := (receiveSessions r)(sessionId \<mapsto> ?s1)\<rparr>"
  have h: "handleReceivedPacket x raw r = finalizeSession x sessionId ?r1"
    using sess new dec
    by (simp add: handleReceivedPacket_def parts dispatch_def caseP_def partOr_Nil Let_def)
  have "parity s' = AList.update (normalizeSequencia rangeStr) parityBytes (parity sess)"
    if "receiveSessions (fst (finalizeSession x sessionId ?r1)) sessionId = Some s'" for s'
    using finalizeSession_surviving [of ?r1 sessionId ?s1 x s'] that by simp
  with h show ?thesis by simp
qed

theorem parity_stored_whatever_its_length_witness:
  "map_option parity
     (receiveSessions
        (fst (handleReceivedPacket exampleExt ''P:a:1-2:QUJD''
               (fst (handleReceivedPacket exampleExt ''S:a::h:2:FNONE'' emptyReceiver)))) ''a'') =
   Some [(''1-2-0'', [65, 66, 67])]"
proof -
  let ?r = "fst (handleReceivedPacket exampleExt ''S:a::h:2:FNONE'' emptyReceiver)"
  let ?sess = "the (receiveSessions ?r ''a'')"
  have h1: "split CHR '':'' ''P:a:1-2:QUJD'' = ''P'' # ''a'' # ''1-2'' # ''QUJD'' # []" by simp
  have "receiveSessions ?r ''a'' \<noteq> None" by code_simp
  then have h2: "receiveSessions ?r ''a'' = Some ?sess" by simp
  have h3: "''P:'' @ ''a'' @ '':'' @ ''1-2'' \<notin> receivedPackets ?sess" by code_simp
  have h4: "validateAndDecodeBase64 ''QUJD'' = Some [65, 66, 67]" by code_simp
  have p: "parity ?sess = []" by code_simp
  have n: "normalizeSequencia ''1-2'' = ''1-2-0''" by code_simp
  have e: "receiveSessions (fst (handleReceivedPacket exampleExt ''P:a:1-2:QUJD'' ?r)) ''a'' \<noteq> None"
    by code_simp
  show ?thesis
    using parity_stored_whatever_its_length [OF h1 h2 h3 h4, of exampleExt] e
    by (auto simp add: p n)
qed

text \<open>
  C5 as stated fails: the payload \<open>QUJD\<close> decodes to the three bytes \<open>ABC\<close>, fewer than
  \<open>CHUNK_SIZE\<close>, and the session's parity map holds them afterwards.
\<close>

theorem short_parity_stored_counterexample:
  "validateAndDecodeBase64 ''QUJD'' = Some [65, 66, 67] \<and>
   length [65, 66, 67 :: byte] < CHUNK_SIZE \<and>
   map_option parity
     (receiveSessions
        (fst (receiveAll exampleExt [''S:a::h:2:FNONE'', ''P:a:1-2:QUJD''] emptyReceiver)) ''a'') =
   Some [(''1-2-0'', [65, 66, 67])]"
  by code_simp

subsection \<open>Malformed payloads\<close>

text \<open>
  A DATA frame for an open session whose payload fails the base-64 validation is dropped,
  but its packet id has been added to \<open>receivedPackets\<close> before the validation: chunks and
  parity are as before, the set of seen ids is not.
\<close>

lemma malformed_data_marks_packet_seen:
  assumes parts: "split CHR '':'' raw = ''D'' # sessionId # seqStr # payload # rest"
    and sess: "receiveSessions r sessionId = Some sess"
    and new: "''D:'' @ sessionId @ '':'' @ seqStr \<notin> receivedPackets sess"
    and seq: "parseInt10 seqStr = Some seqNum"
    and bad: "validateAndDecodeBase64 (join CHR '':'' (payload # rest)) = None"
  shows "handleReceivedPacket x raw r =
           (r\<lparr>receiveSessions := (receiveSessions r)(sessionId \<mapsto>
                 sess\<lparr>receivedPackets := insert (''D:'' @ sessionId @ '':'' @ seqStr)
                                             (receivedPackets sess)\<rparr>)\<rparr>,
            Return None)"
proof -
  show ?thesis
    using sess new seq bad
    by (simp add: handleReceivedPacket_def parts dispatch_def caseD_def partOr_Nil Let_def)
qed

text \<open>
  C6 at a concrete input. Session \<open>a\<close> expects one chunk, \<open>ABC\<close>. After the malformed
  \<open>D:a:1:!!!!\<close> the well-formed \<open>D:a:1:QUJD\<close> is ignored as a duplicate: nothing is
  delivered and the session has no chunk. Without the malformed frame the same DATA frame
  completes the session and delivers \<open>ABC\<close>.
\<close>

theorem malformed_data_blocks_valid_copy:
  "validateAndDecodeBase64 ''!!!!'' = None \<and>
   snd (receiveAll exampleExt
          [''S:a::kC+90rHfDE9wtKXSNSXpMg==:1:FNONE'', ''D:a:1:!!!!'', ''D:a:1:QUJD'']
          emptyReceiver) = [Return None, Return None, Return None] \<and>
   map_option chunks
     (receiveSessions
        (fst (receiveAll exampleExt
                [''S:a::kC+90rHfDE9wtKXSNSXpMg==:1:FNONE'', ''D:a:1:!!!!'', ''D:a:1:QUJD'']
                emptyReceiver)) ''a'') = Some [] \<and>
   snd (receiveAll exampleExt
          [''S:a::kC+90rHfDE9wtKXSNSXpMg==:1:FNONE'', ''D:a:1:QUJD'']
          emptyReceiver) = [Return None, Return (Some ''ABC'')]"
  by code_simp

subsection \<open>Repeated frames\<close>

lemma dispatch_repeated:
  assumes "type' \<noteq> ''S''" and "receiveSessions r sessionId = Some sess"
    and "packetId \<in> receivedPackets sess"
  shows "fst (dispatch x type' parts sessionId packetId r) = r"
  using assms
  by (simp add: dispatch_def caseD_def caseP_def caseE_def Let_def split: option.splits)

lemma finalizeSession_no_fec:
  assumes "receiveSessions r sessionId = Some sess" and "\<not> 0 < groupSize (fecScheme sess)"
    and "int (length (chunks sess)) \<noteq> sess_total sess"
  shows "finalizeSession x sessionId r = (r, Return None)"
proof -
  have "(receiveSessions r)(sessionId \<mapsto> sess) = receiveSessions r"
    using assms(1) by (simp add: map_upd_triv)
  then show ?thesis
    using assms by (simp add: finalizeSession_def fecRecovery_def)
qed

text \<open>
  C4, as amended. A DATA, PARITY or END frame whose packet id the session has already
  seen adds nothing by itself: the call either returns \<open>null\<close> with the receiver
  unchanged or is the recovery and completion pass on the unchanged receiver. For a
  session without FEC that is not complete, the repeated frame leaves the receiver
  unchanged and delivers nothing. (A repeated START replaces the session, and a frame
  without a structured prefix is delivered at every injection.)
\<close>

theorem repeated_frame_adds_nothing:
  assumes parts: "split CHR '':'' raw = type' # sessionId # rest"
    and ty: "type' \<in> {''D'', ''P'', ''E''}"
    and sess: "receiveSessions r sessionId = Some sess"
    and seen: "type' @ '':'' @ sessionId @ '':'' @ partOr (type' # sessionId # rest) 2 []
                 \<in> receivedPackets sess"
  shows "(handleReceivedPacket x raw r = (r, Return None) \<or>
          handleReceivedPacket x raw r = finalizeSession x sessionId r) \<and>
         (\<not> 0 < groupSize (fecScheme sess) \<and> int (length (chunks sess)) \<noteq> sess_total sess \<longrightarrow>
            handleReceivedPacket x raw r = (r, Return None))"
proof -
  let ?pid = "type' @ '':'' @ sessionId @ '':'' @ partOr (type' # sessionId # rest) 2 []"
  let ?d = "dispatch x type' (type' # sessionId # rest) sessionId ?pid r"
  from ty have nS: "type' \<noteq> ''S''" by auto
  have fstd: "fst ?d = r" by (rule dispatch_repeated [OF nS sess seen])
  have h: "handleReceivedPacket x raw r =
             (case ?d of (r', ReturnNull) \<Rightarrow> (r', Return None)
                       | (r', Break) \<Rightarrow> finalizeSession x sessionId r')"
    using ty by (auto simp add: handleReceivedPacket_def parts Let_def)
  have a: "handleReceivedPacket x raw r = (r, Return None) \<or>
          handleReceivedPacket x raw r = finalizeSession x sessionId r"
    using h fstd by (cases ?d; cases "snd ?d") auto
  moreover have "handleReceivedPacket x raw r = (r, Return None)"
    if "\<not> 0 < groupSize (fecScheme sess)" "int (length (chunks sess)) \<noteq> sess_total sess"
    using a finalizeSession_no_fec [OF sess that] by auto
  ultimately show ?thesis by blast
qed


theorem repeated_frame_adds_nothing_witness:
  "handleReceivedPacket exampleExt ''D:a:1:QUJD''
     (fst (receiveAll exampleExt [''S:a::h:2:FNONE'', ''D:a:1:QUJD''] emptyReceiver)) =
   (fst (receiveAll exampleExt [''S:a::h:2:FNONE'', ''D:a:1:QUJD''] emptyReceiver), Return None)"
proof -
  let ?r = "fst (receiveAll exampleExt [''S:a::h:2:FNONE'', ''D:a:1:QUJD''] emptyReceiver)"
  let ?sess = "the (receiveSessions ?r ''a'')"
  have h1: "split CHR '':'' ''D:a:1:QUJD'' = ''D'' # ''a'' # [''1'', ''QUJD'']" by simp
  have h2: "''D'' \<in> {''D'', ''P'', ''E''}" by simp
  have "receiveSessions ?r ''a'' \<noteq> None" by code_simp
  then have h3: "receiveSessions ?r ''a'' = Some ?sess" by simp
  have h4: "''D'' @ '':'' @ ''a'' @ '':'' @ partOr (''D'' # ''a'' # [''1'', ''QUJD'']) 2 []
              \<in> receivedPackets ?sess"
    by code_simp
  have h5: "\<not> 0 < groupSize (fecScheme ?sess) \<and> int (length (chunks ?sess)) \<noteq> sess_total ?sess"
    by code_simp
  show ?thesis
    using repeated_frame_adds_nothing [OF h1 h2 h3 h4, of exampleExt] h5 by blast
qed

text \<open>
  C4 as stated fails for START: injected a second time after \<open>D:a:1:QUJD\<close>, it opens a
  fresh session and the chunk received so far is gone.
\<close>

theorem repeated_start_counterexample:
  "map_option chunks
     (receiveSessions
        (fst (receiveAll exampleExt
                [''S:a::h:2:FNONE'', ''D:a:1:QUJD'', ''S:a::h:2:FNONE''] emptyReceiver)) ''a'') =
     Some [] \<and>
   map_option chunks
     (receiveSessions
        (fst (receiveAll exampleExt [''S:a::h:2:FNONE'', ''D:a:1:QUJD''] emptyReceiver)) ''a'') =
     Some [(1, [65, 66, 67])]"
  by code_simp

text \<open>
  With FEC a repeated frame can even complete a session: the second injection runs the
  recovery passes again, and here the aggressive pass, which walks the parity map in
  insertion order, recovers chunk 3 only on its second run.
\<close>

lemma repeated_parity_delivers_example:
  "snd (receiveAll exampleExt
          [''S:a::kC+90rHfDE9wtKXSNSXpMg==:3:FBASIC_4'', ''D:a:1:QQ=='',
           ''P:a:2-3-0:AQAAAAAAAAAAAAAAAAAAAAAAAAAAAAAAAAAAAAAAAAAAAAAAAAAAAAAAAAAAAAAAAAAAAAAAAAAAAAAAAAAAAAAAAAAAAAAAAAAA'',
           ''P:a:1-2-0:AwAAAAAAAAAAAAAAAAAAAAAAAAAAAAAAAAAAAAAAAAAAAAAAAAAAAAAAAAAAAAAAAAAAAAAAAAAAAAAAAAAAAAAAAAAAAAAAAAAA'',
           ''P:a:1-2-0:AwAAAAAAAAAAAAAAAAAAAAAAAAAAAAAAAAAAAAAAAAAAAAAAAAAAAAAAAAAAAAAAAAAAAAAAAAAAAAAAAAAAAAAAAAAAAAAAAAAA'']
          emptyReceiver) =
     [Return None, Return None, Return None, Return None, Return (Some ''ABC'')]"
  by code_simp

subsection \<open>Chunks inserted by recovery\<close>

lemma actualLengthLoop_le: "actualLengthLoop d n \<le> n"
  by (induction n) auto

lemma actualLengthLoop_nonzero:
  "0 < actualLengthLoop d n \<Longrightarrow> d ! (actualLengthLoop d n - 1) \<noteq> 0"
  by (induction n) (auto split: if_splits)

lemma trimmed_endsNonZero:
  assumes "length d = n" and "0 < actualLengthLoop d n"
  shows "endsNonZero (take (actualLengthLoop d n) d)"
proof -
  let ?n = "actualLengthLoop d n"
  have le: "?n \<le> length d" using actualLengthLoop_le [of d n] assms(1) by simp
  have ne: "take ?n d \<noteq> []" using assms le by auto
  then have "last (take ?n d) = take ?n d ! (length (take ?n d) - 1)"
    by (rule last_conv_nth)
  also have "\<dots> = d ! (?n - 1)" using le assms(2) by (simp add: min_absorb2)
  finally show ?thesis
    using ne actualLengthLoop_nonzero [OF assms(2)] by (simp add: endsNonZero_def)
qed

lemma recoverSingle_ok:
  "recoverSingle m p pcs = Inr rec \<Longrightarrow> (i, d) \<in> set rec \<Longrightarrow> endsNonZero d"
  by (auto simp add: recoverSingle_def Let_def split: sum.splits if_splits
      intro!: trimmed_endsNonZero)

lemma update_pair_cases:
  "(i, d) \<in> set (AList.update k v al) \<Longrightarrow> (i, d) = (k, v) \<or> (i, d) \<in> set al"
  by (induction al) (auto split: if_splits)

lemma recoverDouble_ok:
  "(i, d) \<in> set (recoverDouble gs ms p1 p2 pcs) \<Longrightarrow> endsNonZero d"
  by (auto simp add: recoverDouble_def Let_def split: sum.splits if_splits
      dest!: update_pair_cases intro!: trimmed_endsNonZero)

lemma recoverTriple_ok:
  "(i, d) \<in> set (recoverTriple gs ms p1 p2 p3 pcs) \<Longrightarrow> endsNonZero d"
  by (auto simp add: recoverTriple_def Let_def split: sum.splits if_splits
      dest!: update_pair_cases intro!: trimmed_endsNonZero)

lemma recoverChunks_ok:
  "recoverChunks cs ps gs gsz sch = Inr rec \<Longrightarrow> (i, d) \<in> set rec \<Longrightarrow> endsNonZero d"
  by (auto simp add: recoverChunks_def Let_def split: if_splits
      dest: recoverSingle_ok recoverDouble_ok recoverTriple_ok)

lemma onlyAdds_refl: "onlyAdds cs cs"
  by (simp add: onlyAdds_def)

lemma onlyAdds_trans: "onlyAdds a b \<Longrightarrow> onlyAdds b c \<Longrightarrow> onlyAdds a c"
  by (auto simp add: onlyAdds_def)

lemma onlyAdds_update: "endsNonZero d \<Longrightarrow> onlyAdds cs (AList.update i d cs)"
  by (auto simp add: onlyAdds_def update_conv')

lemma applyRecovered_onlyAdds:
  "(\<And>i d. (i, d) \<in> set rec \<Longrightarrow> endsNonZero d) \<Longrightarrow> onlyAdds cs (applyRecovered rec cs)"
proof (induction rec arbitrary: cs)
  case Nil
  then show ?case by (simp add: onlyAdds_refl)
next
  case (Cons a rec)
  obtain i d where a: "a = (i, d)" by (cases a)
  have ed: "endsNonZero d" using Cons.prems [of i d] a by simp
  then have "onlyAdds cs (AList.update i d cs)" by (rule onlyAdds_update)
  moreover have "onlyAdds (AList.update i d cs) (applyRecovered rec (AList.update i d cs))"
    using Cons.prems by (intro Cons.IH) auto
  ultimately show ?case using a by (auto intro: onlyAdds_trans)
qed

lemma applyRecoveredIfAbsent_onlyAdds:
  "(\<And>i d. (i, d) \<in> set rec \<Longrightarrow> endsNonZero d) \<Longrightarrow> onlyAdds cs (applyRecoveredIfAbsent rec cs)"
proof (induction rec arbitrary: cs)
  case Nil
  then show ?case by (simp add: onlyAdds_refl)
next
  case (Cons a rec)
  obtain i d where a: "a = (i, d)" by (cases a)
  let ?cs = "if map_of cs i = None then AList.update i d cs else cs"
  have ed: "endsNonZero d" using Cons.prems [of i d] a by simp
  then have "onlyAdds cs ?cs" by (simp add: onlyAdds_update onlyAdds_refl)
  moreover have "onlyAdds ?cs (applyRecoveredIfAbsent rec ?cs)"
    using Cons.prems by (intro Cons.IH) auto
  ultimately show ?case using a by (auto intro: onlyAdds_trans)
qed

lemma standardPass_onlyAdds: "onlyAdds cs (fst (standardPass g t sess cs))"
proof (induction g t sess cs rule: standardPass.induct)
  case (1 g t sess cs)
  show ?case
  proof (cases "g \<le> t")
    case False
    then show ?thesis by (simp add: standardPass.simps onlyAdds_refl)
  next
    case True
    let ?rc = "recoverChunks cs (parity sess) ((g - 1) * groupSize (fecScheme sess) + 1)
                 (groupSize (fecScheme sess)) (fecScheme sess)"
    show ?thesis
    proof (cases ?rc)
      case (Inl e)
      with True show ?thesis by (simp add: standardPass.simps [of g] onlyAdds_refl)
    next
      case (Inr rec)
      have a: "onlyAdds cs (applyRecovered rec cs)"
        by (rule applyRecovered_onlyAdds) (use Inr recoverChunks_ok in blast)
      have "onlyAdds (applyRecovered rec cs)
              (fst (standardPass (g + 1) t sess (applyRecovered rec cs)))"
        using "1.IH" [OF True refl Inr] .
      with a True Inr show ?thesis
        by (simp add: standardPass.simps [of g]) (blast intro: onlyAdds_trans)
    qed
  qed
qed

lemma overlappingPass_onlyAdds: "onlyAdds cs (fst (overlappingPass groups sess cs))"
proof (induction groups arbitrary: cs)
  case Nil
  then show ?case by (simp add: onlyAdds_refl)
next
  case (Cons grp groups)
  let ?rc = "recoverChunks cs (parity sess) (g_start grp) (g_end grp - g_start grp + 1)
               ((fecScheme sess)\<lparr>parityCount := 1\<rparr>)"
  show ?case
  proof (cases ?rc)
    case (Inl e)
    then show ?thesis by (simp add: onlyAdds_refl)
  next
    case (Inr rec)
    have a: "onlyAdds cs (applyRecoveredIfAbsent rec cs)"
      by (rule applyRecoveredIfAbsent_onlyAdds) (use Inr recoverChunks_ok in blast)
    with Inr Cons.IH [of "applyRecoveredIfAbsent rec cs"] show ?thesis
      by simp (blast intro: onlyAdds_trans)
  qed
qed

lemma aggressiveStep_onlyAdds: "aggressiveStep k pd cs = Inr cs' \<Longrightarrow> onlyAdds cs cs'"
  by (auto simp add: aggressiveStep_def Let_def onlyAdds_refl
      split: if_splits sum.splits intro!: onlyAdds_update trimmed_endsNonZero)

lemma attemptAggressiveRecovery_onlyAdds:
  "onlyAdds cs (fst (attemptAggressiveRecovery ps cs))"
proof (induction ps arbitrary: cs)
  case Nil
  then show ?case by (simp add: onlyAdds_refl)
next
  case (Cons a ps)
  obtain k pd where a: "a = (k, pd)" by (cases a)
  show ?case
  proof (cases "aggressiveStep k pd cs")
    case (Inl e)
    with a show ?thesis by (simp add: onlyAdds_refl)
  next
    case (Inr cs')
    with a Cons.IH [of cs'] aggressiveStep_onlyAdds [OF Inr] show ?thesis
      by simp (blast intro: onlyAdds_trans)
  qed
qed

lemma fecRecovery_onlyAdds: "onlyAdds (chunks sess) (fst (fecRecovery sess))"
proof -
  let ?sp = "standardPass 1 (ceilDiv (sess_total sess) (groupSize (fecScheme sess))) sess (chunks sess)"
  let ?op = "overlappingPass (overlappingOnlyGroups (sess_total sess)) sess (fst ?sp)"
  have 1: "onlyAdds (chunks sess) (fst ?sp)" by (rule standardPass_onlyAdds)
  have 2: "onlyAdds (fst ?sp) (fst ?op)" by (rule overlappingPass_onlyAdds)
  have 3: "onlyAdds c (fst (attemptAggressiveRecovery (parity sess) c))" for c
    by (rule attemptAggressiveRecovery_onlyAdds)
  show ?thesis
    using 1 2 3 [of "fst ?sp"] 3 [of "fst ?op"]
    by (auto simp add: fecRecovery_def onlyAdds_refl split: prod.splits option.splits
        intro: onlyAdds_trans)
qed

text \<open>
  C9. Whatever the recovery passes after a packet (the standard pass with its single,
  double and triple branches, the overlapping pass and the aggressive pass) leave in the
  chunk map, also when a pass throws: every entry is an entry the map had before, or a
  chunk that is not empty and whose last byte is not zero. Hence a sequence number that
  was missing is never filled with a chunk that is empty or ends in a zero byte.
\<close>

theorem recovered_chunks_end_nonzero:
  assumes "fecRecovery sess = (cs, e)"
  shows "(\<forall>i d. map_of cs i = Some d \<longrightarrow> map_of (chunks sess) i = Some d \<or> (d \<noteq> [] \<and> last d \<noteq> 0)) \<and>
         (\<forall>i c. map_of (chunks sess) i = None \<and> (c = [] \<or> last c = 0) \<longrightarrow> map_of cs i \<noteq> Some c)"
proof -
  have a: "map_of (chunks sess) i = Some d \<or> (d \<noteq> [] \<and> last d \<noteq> 0)"
    if "map_of cs i = Some d" for i d
    using fecRecovery_onlyAdds [of sess] assms that
    by (simp add: onlyAdds_def endsNonZero_def)
  have b: "map_of cs i \<noteq> Some c"
    if "map_of (chunks sess) i = None \<and> (c = [] \<or> last c = 0)" for i c
  proof
    assume "map_of cs i = Some c"
    from a [OF this] that show False by auto
  qed
  from a b show ?thesis by blast
qed


theorem recovered_chunks_end_nonzero_witness:
  "fecRecovery exampleLossySession = ([(1, [65, 66, 67])], None) \<and>
   map_of (chunks exampleLossySession) 1 = None \<and>
   [65, 66, 67 :: byte] \<noteq> [] \<and> last [65, 66, 67 :: byte] \<noteq> 0 \<and>
   map_of [(1 :: int, [65, 66, 67 :: byte])] 1 \<noteq> Some [65, 66, 67, 0, 0]"
proof -
  have h: "fecRecovery exampleLossySession = ([(1, [65, 66, 67])], None)"
    by code_simp
  have c: "map_of (chunks exampleLossySession) 1 = None"
    by (simp add: exampleLossySession_def)
  show ?thesis
    using recovered_chunks_end_nonzero [OF h] h c by simp
qed

subsection \<open>Numbers in text\<close>

lemma of_char_digitChar: "d < 10 \<Longrightarrow> (of_char (digitChar d) :: nat) = 48 + d"
  by (simp add: digitChar_def)

lemma hexVal_digitChar: "d < 10 \<Longrightarrow> hexVal (digitChar d) = Some d"
  by (simp add: hexVal_def of_char_digitChar)

lemma isDigit_digitChar: "d < 10 \<Longrightarrow> isDigit (digitChar d)"
  by (simp add: isDigit_def of_char_digitChar)

lemma digitChar_not_minus: "d < 10 \<Longrightarrow> digitChar d \<noteq> CHR ''-''"
  using of_char_digitChar [of d] by auto

lemma showNat_digits: "c \<in> set (showNat n) \<Longrightarrow> isDigit c"
proof (induction n rule: showNat.induct)
  case (1 n)
  show ?case
  proof (cases "n < 10")
    case True
    with "1.prems" show ?thesis by (simp add: showNat.simps [of n] isDigit_digitChar)
  next
    case False
    with "1.prems" "1.IH" show ?thesis
      by (auto simp add: showNat.simps [of n] isDigit_digitChar)
  qed
qed

lemma showNat_not_Nil: "showNat n \<noteq> []"
  by (simp add: showNat.simps [of n])

lemma digitsValue_snoc: "digitsValue r (ds @ [c]) = digitsValue r ds * r + the (hexVal c)"
  by (simp add: digitsValue_def)

lemma digitsValue_showNat: "digitsValue 10 (showNat n) = n"
proof (induction n rule: showNat.induct)
  case (1 n)
  show ?case
  proof (cases "n < 10")
    case True
    then show ?thesis by (simp add: showNat.simps [of n] digitsValue_def hexVal_digitChar)
  next
    case False
    then have "digitsValue 10 (showNat (n div 10)) = n div 10" using "1.IH" by simp
    with False show ?thesis
      by (simp add: showNat.simps [of n] digitsValue_snoc hexVal_digitChar)
  qed
qed

lemma showNat_inj: "showNat a = showNat b \<Longrightarrow> a = b"
  by (metis digitsValue_showNat)

lemma isDigit_not_minus: "isDigit c \<Longrightarrow> c \<noteq> CHR ''-''"
proof
  assume "isDigit c" and "c = CHR ''-''"
  then show False by (simp add: isDigit_def)
qed


lemma minus_notin_showNat: "CHR ''-'' \<notin> set (showNat n)"
  using showNat_digits isDigit_not_minus by blast

lemma numToString_inj: "numToString a = numToString b \<Longrightarrow> a = b"
proof -
  assume e: "numToString a = numToString b"
  have hd: "hd (showNat n) \<noteq> CHR ''-''" for n
    using minus_notin_showNat [of n] showNat_not_Nil [of n] by (cases "showNat n") auto
  show ?thesis
  proof (cases "a < 0"; cases "b < 0")
    assume "a < 0" "b < 0"
    with e have "nat (- a) = nat (- b)" by (simp add: numToString_def showNat_inj)
    with \<open>a < 0\<close> \<open>b < 0\<close> show ?thesis by simp
  next
    assume "a < 0" "\<not> b < 0"
    with e have "CHR ''-'' # showNat (nat (- a)) = showNat (nat b)"
      by (simp add: numToString_def)
    with hd [of "nat b"] show ?thesis by (metis list.sel(1))
  next
    assume "\<not> a < 0" "b < 0"
    with e have "showNat (nat a) = CHR ''-'' # showNat (nat (- b))"
      by (simp add: numToString_def)
    with hd [of "nat a"] show ?thesis by (metis list.sel(1))
  next
    assume "\<not> a < 0" "\<not> b < 0"
    with e have "nat a = nat b" by (simp add: numToString_def showNat_inj)
    with \<open>\<not> a < 0\<close> \<open>\<not> b < 0\<close> show ?thesis by simp
  qed
qed

lemma rangeKey_inj:
  assumes "0 \<le> s" and "0 \<le> s'" and "rangeKey s e = rangeKey s' e'"
  shows "s = s' \<and> e = e'"
proof -
  have k: "rangeKey s e = showNat (nat s) @ CHR ''-'' # numToString e"
    "rangeKey s' e' = showNat (nat s') @ CHR ''-'' # numToString e'"
    using assms(1,2) by (simp_all add: rangeKey_def numToString_def)
  have "takeWhile (\<lambda>x. x \<noteq> CHR ''-'') (rangeKey s e) = showNat (nat s)"
    "takeWhile (\<lambda>x. x \<noteq> CHR ''-'') (rangeKey s' e') = showNat (nat s')"
    unfolding k by (rule takeWhile_sep [OF minus_notin_showNat])+
  with assms(3) have "showNat (nat s) = showNat (nat s')" by simp
  then have s: "nat s = nat s'" by (rule showNat_inj)
  with k assms(3) have "numToString e = numToString e'" by simp
  then have "e = e'" by (rule numToString_inj)
  with s assms(1,2) show ?thesis by simp
qed

subsection \<open>The group plan\<close>

lemma mainGroupsLoop_from:
  assumes "k \<le> mainGroupCount t"
  shows "mainGroupsLoop (1 + 3 * int k) t gs ks =
           (gs @ map (mainGroupAt t) [k..<mainGroupCount t],
            ks \<union> mainKeyAt t ` {k..<mainGroupCount t})"
  using assms
proof (induction "mainGroupCount t - k" arbitrary: k gs ks)
  case 0
  then have k: "k = mainGroupCount t" by simp
  have ng: "\<not> 1 + 3 * int k \<le> t" unfolding k mainGroupCount_def by (cases "0 \<le> t + 2") auto
  show ?case by (subst mainGroupsLoop.simps) (simp add: ng [unfolded k] k)
next
  case (Suc n)
  then have lt: "k < mainGroupCount t" by simp
  then have le: "1 + 3 * int k \<le> t" unfolding mainGroupCount_def by auto
  have n: "n = mainGroupCount t - Suc k" using Suc.hyps(2) by simp
  have sk: "Suc k \<le> mainGroupCount t" using lt by simp
  have a: "1 + 3 * int k + 3 = 1 + 3 * int (Suc k)" by simp
  have u: "[k..<mainGroupCount t] = k # [Suc k..<mainGroupCount t]"
    using lt by (simp add: upt_conv_Cons)
  have s: "{k..<mainGroupCount t} = insert k {Suc k..<mainGroupCount t}"
    using lt by auto
  have step: "mainGroupsLoop (1 + 3 * int k) t gs ks =
                mainGroupsLoop (1 + 3 * int (Suc k)) t (gs @ [mainGroupAt t k])
                  (insert (mainKeyAt t k) ks)"
    by (subst mainGroupsLoop.simps) (simp add: le mainGroupAt_def mainKeyAt_def Let_def add.commute)
  show ?case
    unfolding step Suc.hyps(1) [OF n sk] by (simp add: u s)
qed

lemma mainGroupsLoop_eq:
  "mainGroupsLoop 1 t [] {} =
     (map (mainGroupAt t) [0..<mainGroupCount t], mainKeyAt t ` {0..<mainGroupCount t})"
  using mainGroupsLoop_from [of 0 t "[]" "{}"] by simp

lemma specMainGroups_eq: "specMainGroups t = map (mainGroupAt t) [0..<mainGroupCount t]"
  by (simp add: specMainGroups_def mainGroupAt_def mainGroupCount_def)

lemma overlappingGroupsLoop_eq:
  "overlappingGroupsLoop i t ks oIndex acc =
     acc @ map (\<lambda>j. \<lparr>g_start = j, g_end = j + 2, g_type = CHR ''O'' # numToString (oIndex + (j - i))\<rparr>)
             (filter (\<lambda>j. rangeKey j (j + 2) \<notin> ks) [i..t - 2])"
proof (induction i t ks oIndex acc rule: overlappingGroupsLoop.induct)
  case (1 i t ks oIndex acc)
  show ?case
  proof (cases "i \<le> t")
    case False
    then show ?thesis by (subst overlappingGroupsLoop.simps) simp
  next
    case True
    show ?thesis
    proof (cases "i + 2 \<le> t")
      case False
      with True "1.IH"(2) [OF True False] show ?thesis
        by (subst overlappingGroupsLoop.simps) simp
    next
      case T2: True
      have u: "[i..t - 2] = i # [i + 1..t - 2]" using T2 by (simp add: upto_rec1)
      have m: "oIndex + 1 + (j - (i + 1)) = oIndex + (j - i)" for j by simp
      show ?thesis
        using True T2 "1.IH"(1) [OF True T2 refl refl refl]
        by (subst overlappingGroupsLoop.simps) (simp add: u m Let_def)
    qed
  qed
qed

lemma mainKey_member:
  assumes "0 \<le> j"
  shows "rangeKey j (j + 2) \<in> mainKeyAt t ` {0..<mainGroupCount t} \<longleftrightarrow> specIsMainRange t j (j + 2)"
proof -
  have "rangeKey j (j + 2) = mainKeyAt t k \<longleftrightarrow>
          (j, j + 2) = (g_start (mainGroupAt t k), g_end (mainGroupAt t k))" for k
    using rangeKey_inj [of j "1 + 3 * int k" "j + 2" "min (1 + 3 * int k + 2) t"] assms
    by (auto simp add: mainKeyAt_def mainGroupAt_def)
  then show ?thesis
    by (auto simp add: specIsMainRange_def specMainGroups_eq image_iff)
qed

lemma generateOverlappingGroups_eq: "generateOverlappingGroups t = specGroupPlan t"
proof -
  have f: "filter (\<lambda>j. rangeKey j (j + 2) \<notin> mainKeyAt t ` {0..<mainGroupCount t}) [2..t - 2] =
           filter (\<lambda>j. \<not> specIsMainRange t j (j + 2)) [2..t - 2]"
    by (rule filter_cong) (auto simp add: mainKey_member)
  show ?thesis
    by (simp add: generateOverlappingGroups_def mainGroupsLoop_eq overlappingGroupsLoop_eq f
        specGroupPlan_def specMainGroups_eq specOverlappingGroups_def)
qed

lemma filter_O_specGroupPlan:
  "filter (\<lambda>grp. startsWith (g_type grp) ''O'') (specGroupPlan t) = specOverlappingGroups t"
  by (simp add: specGroupPlan_def specMainGroups_def specOverlappingGroups_def startsWith_def
      filter_map comp_def)

text \<open>
  C2. For every \<open>total\<close> the plan of an overlapping scheme depends on \<open>total\<close> alone: the
  sender's \<open>generateFECGroups\<close> and the receiver's call of \<open>generateOverlappingGroups\<close>
  both give the main groups \<open>(1 + 3k, min(3 + 3k, total))\<close> of type \<open>0\<close> in ascending
  order, followed by the candidates \<open>(i, i + 2)\<close> for \<open>i = 2, \<dots>, total - 2\<close> that are no
  main range, the candidate \<open>i\<close> carrying the type \<open>O\<close> with index \<open>i - 2\<close>, the number of
  candidates before it, emitted or not. The groups of the receiver's overlapping pass are
  the second part of this plan.
\<close>

theorem group_plan_deterministic:
  assumes "overlap scheme" and "groupSize scheme \<noteq> 0"
  shows "generateFECGroups total' scheme = specGroupPlan total' \<and>
         generateOverlappingGroups total' = specGroupPlan total' \<and>
         overlappingOnlyGroups total' = specOverlappingGroups total'"
  using assms
  by (simp add: generateFECGroups_def generateOverlappingGroups_eq overlappingOnlyGroups_def
      filter_O_specGroupPlan)


theorem group_plan_deterministic_witness:
  "generateFECGroups 7 FEC_STRONG_OVERLAPPING_3 =
     [\<lparr>g_start = 1, g_end = 3, g_type = ''0''\<rparr>, \<lparr>g_start = 4, g_end = 6, g_type = ''0''\<rparr>,
      \<lparr>g_start = 7, g_end = 7, g_type = ''0''\<rparr>, \<lparr>g_start = 2, g_end = 4, g_type = ''O0''\<rparr>,
      \<lparr>g_start = 3, g_end = 5, g_type = ''O1''\<rparr>, \<lparr>g_start = 5, g_end = 7, g_type = ''O3''\<rparr>] \<and>
   overlappingOnlyGroups 7 =
     [\<lparr>g_start = 2, g_end = 4, g_type = ''O0''\<rparr>, \<lparr>g_start = 3, g_end = 5, g_type = ''O1''\<rparr>,
      \<lparr>g_start = 5, g_end = 7, g_type = ''O3''\<rparr>]"
proof -
  have h1: "overlap FEC_STRONG_OVERLAPPING_3" by (simp add: FEC_STRONG_OVERLAPPING_3_def)
  have h2: "groupSize FEC_STRONG_OVERLAPPING_3 \<noteq> 0" by (simp add: FEC_STRONG_OVERLAPPING_3_def)
  have p: "specGroupPlan 7 =
     [\<lparr>g_start = 1, g_end = 3, g_type = ''0''\<rparr>, \<lparr>g_start = 4, g_end = 6, g_type = ''0''\<rparr>,
      \<lparr>g_start = 7, g_end = 7, g_type = ''0''\<rparr>, \<lparr>g_start = 2, g_end = 4, g_type = ''O0''\<rparr>,
      \<lparr>g_start = 3, g_end = 5, g_type = ''O1''\<rparr>, \<lparr>g_start = 5, g_end = 7, g_type = ''O3''\<rparr>]"
    by code_simp
  have q: "specOverlappingGroups 7 =
     [\<lparr>g_start = 2, g_end = 4, g_type = ''O0''\<rparr>, \<lparr>g_start = 3, g_end = 5, g_type = ''O1''\<rparr>,
      \<lparr>g_start = 5, g_end = 7, g_type = ''O3''\<rparr>]"
    by code_simp
  show ?thesis
    using group_plan_deterministic [OF h1 h2, of 7] by (simp only: p q)
qed

subsection \<open>Base-64 round trip\<close>


























subsection \<open>Reading back what the sender prints\<close>













lemma createParityKey_nonneg:
  "0 \<le> s \<Longrightarrow> 0 \<le> e \<Longrightarrow>
   createParityKey s e t = showNat (nat s) @ CHR ''-'' # showNat (nat e) @ CHR ''-'' # t"
  by (simp add: createParityKey_def numToString_def)

lemma createParityKey_inj:
  assumes "0 \<le> s" "0 \<le> e" "0 \<le> s'" "0 \<le> e'"
    and eq: "createParityKey s e t = createParityKey s' e' t'"
  shows "s = s' \<and> e = e' \<and> t = t'"
proof -
  let ?P = "\<lambda>x. x \<noteq> CHR ''-''"
  have k: "showNat (nat s) @ CHR ''-'' # showNat (nat e) @ CHR ''-'' # t =
           showNat (nat s') @ CHR ''-'' # showNat (nat e') @ CHR ''-'' # t'"
    using eq assms(1-4) by (simp add: createParityKey_nonneg)
  have "takeWhile ?P (showNat (nat s) @ CHR ''-'' # showNat (nat e) @ CHR ''-'' # t) = showNat (nat s)"
    "takeWhile ?P (showNat (nat s') @ CHR ''-'' # showNat (nat e') @ CHR ''-'' # t') = showNat (nat s')"
    by (rule takeWhile_sep [OF minus_notin_showNat])+
  with k have 1: "showNat (nat s) = showNat (nat s')" by simp
  with k have k2: "showNat (nat e) @ CHR ''-'' # t = showNat (nat e') @ CHR ''-'' # t'" by simp
  have "takeWhile ?P (showNat (nat e) @ CHR ''-'' # t) = showNat (nat e)"
    "takeWhile ?P (showNat (nat e') @ CHR ''-'' # t') = showNat (nat e')"
    by (rule takeWhile_sep [OF minus_notin_showNat])+
  with k2 have 2: "showNat (nat e) = showNat (nat e')" by simp
  with k2 have 3: "t = t'" by simp
  from 1 2 3 assms(1-4) showNat_inj show ?thesis by (metis nat_eq_iff2)
qed




subsection \<open>The frames of the sender, split at the colons\<close>





subsection \<open>Chunks\<close>





subsection \<open>Padding and XOR\<close>













subsection \<open>Trimming the padding\<close>








subsection \<open>Recovery that finds nothing to do\<close>







subsection \<open>Single steps of the receiver\<close>










subsection \<open>The chunks a receiver holds when one DATA frame is withheld\<close>










subsection \<open>Reassembly\<close>



subsection \<open>Main groups and their parity\<close>



lemma mainStart_inj: "0 < gs \<Longrightarrow> mainStart gs q = mainStart gs q' \<Longrightarrow> q = q'"
  by (simp add: mainStart_def)

lemma mainStart_pos: "0 < gs \<Longrightarrow> 1 \<le> mainStart gs q"
  by (simp add: mainStart_def)

lemma mainEnd_nonneg: "0 < gs \<Longrightarrow> 0 \<le> n \<Longrightarrow> 0 \<le> mainEnd gs n q"
  by (simp add: mainEnd_def)

lemma key_eq_mainParityKey:
  assumes "0 < gs" and "0 \<le> n" and "0 \<le> s" and "0 \<le> e"
    and "createParityKey s e t = mainParityKey gs n q"
  shows "s = mainStart gs q \<and> e = mainEnd gs n q \<and> t = ''0''"
  using createParityKey_inj [OF assms(3,4) _ _ assms(5) [unfolded mainParityKey_def]]
    mainStart_pos [OF assms(1), of q] mainEnd_nonneg [OF assms(1,2), of q]
  by simp

lemma mainParityKey_inj:
  assumes "0 < gs" and "0 \<le> n" and "mainParityKey gs n q = mainParityKey gs n q'"
  shows "q = q'"
proof -
  have "mainStart gs q = mainStart gs q'"
    using key_eq_mainParityKey [OF assms(1,2) _ _ assms(3) [unfolded mainParityKey_def [of gs n q]]]
      mainStart_pos [OF assms(1), of q] mainEnd_nonneg [OF assms(1,2), of q]
    by simp
  then show ?thesis by (rule mainStart_inj [OF assms(1)])
qed


lemma distinct_heldParity:
  assumes "0 < gs"
  shows "distinct (map fst (heldParity cs gs q))"
proof -
  have inj: "mainParityKey gs (int (length cs)) a = mainParityKey gs (int (length cs)) b \<Longrightarrow> a = b"
    for a b
    using mainParityKey_inj [OF assms, of "int (length cs)" a b] by simp
  have "inj_on (\<lambda>q'. mainParityKey gs (int (length cs)) q') (set [0..<q])"
    by (rule inj_onI) (rule inj)
  then show ?thesis by (simp add: heldParity_def comp_def distinct_map)
qed




subsection \<open>What is missing in a group\<close>




subsection \<open>Recovery passes before the parity of the damaged group\<close>










subsection \<open>The recovery pass that restores the withheld chunk\<close>






subsection \<open>The receiver on the frames of one message\<close>









subsection \<open>The parity frames of the sender\<close>







subsection \<open>The plan of the sender\<close>





subsection \<open>The four protecting schemes and their flags\<close>





subsection \<open>The frames of \<open>sendLargeData\<close>\<close>













subsection \<open>Losing one DATA frame\<close>




end
